theory Spec2Isabelle
  imports Main "HOL-Library.Multiset"
begin

section \<open>Balanced sampling and pair datasets of src/datasets/classification.py\<close>

text \<open>
  A shallow embedding of \<^verbatim>\<open>ClassificationDataset\<close>, \<^verbatim>\<open>EvenSampler\<close>,
  \<^verbatim>\<open>DomainAdaptationPairDataset\<close> and \<^verbatim>\<open>pairs_get_datasets\<close>.

  Python exceptions are values of \<open>error\<close>; a function that can raise returns
  \<open>error + 'a\<close>. The program draws random numbers (\<^verbatim>\<open>torch.randperm\<close>,
  \<^verbatim>\<open>random.randint\<close>, \<^verbatim>\<open>random.sample\<close>). The embedding takes the outcomes
  of these draws as an explicit list of naturals, read front to back; each library call
  accepts exactly the outcomes the library can produce. A list that runs out, or whose next
  entries are no outcome of the call, describes no run of the program: the embedding
  answers \<open>NotARun\<close>, which is no Python exception.
\<close>

datatype error =
    IndexError
  | ValueError
  | KeyError
  | ZeroDivisionError
  | RuntimeError
  | AssertionError string
  | NotARun

type_synonym rng = "nat list"

definition bindE :: "error + 'a \<Rightarrow> ('a \<Rightarrow> error + 'b) \<Rightarrow> error + 'b" where
  "bindE m f = (case m of Inl e \<Rightarrow> Inl e | Inr x \<Rightarrow> f x)"

text \<open>\<^verbatim>\<open>xs[i]\<close> for a non-negative index.\<close>

definition index :: "'a list \<Rightarrow> nat \<Rightarrow> error + 'a" where
  "index xs i = (if i < length xs then Inr (xs ! i) else Inl IndexError)"

text \<open>A list comprehension whose body can raise: the first exception wins.\<close>

fun mapE :: "('a \<Rightarrow> error + 'b) \<Rightarrow> 'a list \<Rightarrow> error + 'b list" where
  "mapE f [] = Inr []"
| "mapE f (x # xs) = bindE (f x) (\<lambda>y. bindE (mapE f xs) (\<lambda>ys. Inr (y # ys)))"

text \<open>Python slices \<^verbatim>\<open>xs[0:k]\<close> and \<^verbatim>\<open>xs[k:]\<close>; a negative \<open>k\<close> counts from the end.\<close>

definition slice_to :: "'a list \<Rightarrow> int \<Rightarrow> 'a list" where
  "slice_to xs k = (if 0 \<le> k then take (nat k) xs else take (length xs - nat (- k)) xs)"

definition slice_from :: "'a list \<Rightarrow> int \<Rightarrow> 'a list" where
  "slice_from xs k = (if 0 \<le> k then drop (nat k) xs else drop (length xs - nat (- k)) xs)"

subsection \<open>Random draws\<close>

text \<open>
  \<^verbatim>\<open>torch.randperm(n)\<close>: any permutation of \<open>0..n-1\<close>, read as the next \<open>n\<close> entries.
\<close>

definition randperm :: "nat \<Rightarrow> rng \<Rightarrow> error + (nat list \<times> rng)" where
  "randperm n rs =
     (if length rs < n then Inl NotARun
      else if set (take n rs) = {0..<n} then Inr (take n rs, drop n rs)
      else Inl NotARun)"

text \<open>
  \<^verbatim>\<open>random.randint(0, b)\<close>: \<^verbatim>\<open>ValueError\<close> on an empty range, otherwise any
  integer from \<open>0\<close> to \<open>b\<close>, both included.
\<close>

definition randint :: "int \<Rightarrow> rng \<Rightarrow> error + (nat \<times> rng)" where
  "randint b rs =
     (if b < 0 then Inl ValueError
      else case rs of
        [] \<Rightarrow> Inl NotARun
      | v # rs' \<Rightarrow> if int v \<le> b then Inr (v, rs') else Inl NotARun)"

text \<open>
  \<^verbatim>\<open>random.sample(range(n), 2)\<close>: \<^verbatim>\<open>ValueError\<close> when the population has fewer
  than two members, otherwise any two different members, in any order.
\<close>

definition sample2 :: "nat \<Rightarrow> rng \<Rightarrow> error + ((nat \<times> nat) \<times> rng)" where
  "sample2 n rs =
     (if n < 2 then Inl ValueError
      else case rs of
        c1 # c2 # rs' \<Rightarrow>
          if c1 < n \<and> c2 < n \<and> c1 \<noteq> c2 then Inr ((c1, c2), rs') else Inl NotARun
      | _ \<Rightarrow> Inl NotARun)"

subsection \<open>ClassificationDataset\<close>

text \<open>
  The fields of a \<^verbatim>\<open>ClassificationDataset\<close> the samplers read: the absolute image
  paths, the integer labels in the same order, and the subset of indices in use.
\<close>

record dataset =
  imgs :: "string list"
  labels :: "nat list"
  subset :: "nat list"

text \<open>
  What \<^verbatim>\<open>os.walk\<close> reports for a dataset directory: its path and, in enumeration
  order, each class subdirectory with the files in it (class subdirectories hold images
  only, as the source's docstring assumes).
\<close>

record directory =
  dir_path :: string
  subdirs :: "(string \<times> string list) list"

text \<open>
  \<^verbatim>\<open>self.classes = {img_classes[i] : i for i in range(0, len(img_classes))}\<close>:
  a later entry of the same name replaces an earlier one.
\<close>

definition classes_of :: "string list \<Rightarrow> (string \<rightharpoonup> nat)" where
  "classes_of img_classes =
     fold (\<lambda>i m. m(img_classes ! i \<mapsto> i)) [0..<length img_classes] Map.empty"

definition lookup :: "(string \<rightharpoonup> nat) \<Rightarrow> string \<Rightarrow> error + nat" where
  "lookup m k = (case m k of None \<Rightarrow> Inl KeyError | Some v \<Rightarrow> Inr v)"

definition ClassificationDataset :: "directory \<Rightarrow> nat list option \<Rightarrow> error + dataset" where
  "ClassificationDataset d sub =
     (let img_classes = map fst (subdirs d);
          classes = classes_of img_classes;
          paths = concat (map (\<lambda>(c, files). map (\<lambda>f. dir_path d @ ''/'' @ c @ ''/'' @ f) files)
                            (subdirs d))
      in bindE (mapE (\<lambda>(c, files). bindE (lookup classes c) (\<lambda>l. Inr (replicate (length files) l)))
                  (subdirs d))
           (\<lambda>ls. Inr \<lparr> imgs = paths, labels = concat ls,
                       subset = (case sub of None \<Rightarrow> [0..<length paths] | Some s \<Rightarrow> s) \<rparr>))"

definition dataset_len :: "dataset \<Rightarrow> nat" where
  "dataset_len ds = length (subset ds)"

subsection \<open>EvenSampler\<close>

record sampler =
  sam_labels :: "nat list"
  shot :: int
  num_classes :: nat
  class_idxs :: "nat list list"
  remain_class_idxs :: "nat list list"
  class_idx_lens :: "nat list"
  max_len :: nat
  min_len :: nat

text \<open>\<^verbatim>\<open>torch.flatten((self.labels == c).nonzero())\<close>: the positions holding label \<open>c\<close>.\<close>

definition nonzero_eq :: "nat list \<Rightarrow> nat \<Rightarrow> nat list" where
  "nonzero_eq ls c = filter (\<lambda>i. ls ! i = c) [0..<length ls]"

definition EvenSampler_init :: "dataset \<Rightarrow> int \<Rightarrow> error + sampler" where
  "EvenSampler_init ds sh =
     bindE (mapE (index (labels ds)) (subset ds)) (\<lambda>ls.
       let n = length (remdups ls);
           idxs = map (\<lambda>c. if sh \<noteq> - 1 then slice_to (nonzero_eq ls c) sh
                            else nonzero_eq ls c) [0..<n];
           remain = (if sh \<noteq> - 1 then map (\<lambda>c. slice_from (nonzero_eq ls c) sh) [0..<n]
                     else []);
           lens = map length idxs
       in if lens = [] then Inl ValueError
          else Inr \<lparr> sam_labels = ls, shot = sh, num_classes = n, class_idxs = idxs,
                     remain_class_idxs = remain, class_idx_lens = lens,
                     max_len = Max (set lens), min_len = Min (set lens) \<rparr>)"

text \<open>
  The loop of \<^verbatim>\<open>__iter__\<close> over the buckets: each is shuffled by a fresh permutation
  and cut to \<open>min_len\<close>; the result replaces the bucket in \<^verbatim>\<open>self.class_idxs\<close>.
\<close>

fun shuffle_buckets :: "nat \<Rightarrow> nat list list \<Rightarrow> rng \<Rightarrow> error + (nat list list \<times> rng)" where
  "shuffle_buckets m [] rs = Inr ([], rs)"
| "shuffle_buckets m (c # cs) rs =
     bindE (randperm (length c) rs) (\<lambda>(rand_idx, rs').
       bindE (shuffle_buckets m cs rs') (\<lambda>(cs', rs'').
         Inr (take m (map (\<lambda>j. c ! j) rand_idx) # cs', rs'')))"

text \<open>
  \<^verbatim>\<open>torch.stack(ts, dim=1)\<close> flattened row by row: entry \<open>j\<close> of every tensor, for
  \<open>j = 0, 1, ...\<close>. It raises on an empty list and on tensors of different sizes.
\<close>

definition stack_flat :: "nat list list \<Rightarrow> error + nat list" where
  "stack_flat ts =
     (if ts = [] then Inl RuntimeError
      else if list_ex (\<lambda>t. length t \<noteq> length (hd ts)) ts then Inl RuntimeError
      else Inr (concat (map (\<lambda>j. map (\<lambda>t. t ! j) ts) [0..<length (hd ts)])))"

definition EvenSampler_iter :: "sampler \<Rightarrow> rng \<Rightarrow> error + (nat list \<times> sampler \<times> rng)" where
  "EvenSampler_iter s rs =
     bindE (shuffle_buckets (min_len s) (class_idxs s) rs) (\<lambda>(cs', rs').
       bindE (stack_flat cs') (\<lambda>zipped_idxs.
         Inr (zipped_idxs, s\<lparr>class_idxs := cs'\<rparr>, rs')))"

definition EvenSampler_len :: "sampler \<Rightarrow> nat" where
  "EvenSampler_len s = length (sam_labels s)"

subsection \<open>DomainAdaptationPairDataset\<close>

type_synonym img_pair = "string \<times> string"
type_synonym pair_label = "nat \<times> (nat \<times> nat)"

record pair_dataset =
  pd_shot :: int
  adv_stage :: bool
  source_dataset :: dataset
  target_dataset :: dataset
  s_sampler :: sampler
  t_sampler :: sampler
  num_G1_pairs :: nat
  num_G2_pairs :: nat
  num_G3_pairs :: nat
  num_G4_pairs :: nat
  min_pairs :: nat
  min_pairs_multiple :: nat
  G1_img_paths :: "img_pair list"
  G1_labels :: "pair_label list"
  G2_img_paths :: "img_pair list"
  G2_labels :: "pair_label list"
  G3_img_paths :: "img_pair list"
  G3_labels :: "pair_label list"
  G4_img_paths :: "img_pair list"
  G4_labels :: "pair_label list"
  s_sampler_idxs :: "nat list"
  t_sampler_idxs :: "nat list"
  num_s_partitions :: int
  num_t_partitions :: int
  group_imgs :: "img_pair list list"
  group_labels :: "pair_label list list"
  pd_subset :: "nat list"

text \<open>
  The four numbers of possible pairs, as computed right after the two samplers are built
  (\<^verbatim>\<open>self.num_G1_pairs\<close> to \<^verbatim>\<open>self.num_G4_pairs\<close> before they are clamped).
\<close>

definition capacities :: "sampler \<Rightarrow> sampler \<Rightarrow> error + (nat \<times> nat \<times> nat \<times> nat)" where
  "capacities s t =
     bindE (mapE (\<lambda>i. bindE (index (class_idx_lens s) i) (\<lambda>n. Inr (n choose 2)))
              [0..<num_classes s]) (\<lambda>g1.
     bindE (mapE (\<lambda>i. bindE (index (class_idx_lens s) i) (\<lambda>a.
                        bindE (index (class_idx_lens t) i) (\<lambda>b. Inr (a * b))))
              [0..<num_classes t]) (\<lambda>g2.
     bindE (mapE (\<lambda>i. bindE (mapE (\<lambda>j. bindE (index (class_idx_lens s) j) (\<lambda>a.
                                          bindE (index (class_idx_lens t) i) (\<lambda>b. Inr (a * b))))
                                (filter (\<lambda>j. i \<noteq> j) [0..<num_classes s]))
                          (\<lambda>xs. Inr (sum_list xs)))
              [0..<num_classes t]) (\<lambda>g4.
       Inr (sum_list g1, sum_list g2, length (sam_labels s) choose 2, sum_list g4))))"

text \<open>\<^verbatim>\<open>sub[idxs[k]]\<close>: a sampler index mapped through a dataset's subset.\<close>

definition pick :: "nat list \<Rightarrow> nat list \<Rightarrow> nat \<Rightarrow> error + nat" where
  "pick sub idxs k = bindE (index idxs k) (index sub)"

text \<open>
  The body of the \<^verbatim>\<open>try\<close> of the G1 loop after the three draws. Every exception it
  can raise is an \<^verbatim>\<open>IndexError\<close>, which the loop catches: the flag tells whether
  \<^verbatim>\<open>pair_cnt\<close> was incremented. The image pair is appended before the labels are read.
\<close>

definition G1_try :: "pair_dataset \<Rightarrow> nat \<Rightarrow> nat \<Rightarrow> nat \<Rightarrow> pair_dataset \<times> bool" where
  "G1_try self p1 p2 c =
     (let sd = source_dataset self; s_sub = subset sd in
      case bindE (pick s_sub (s_sampler_idxs self) (p1 + c)) (\<lambda>x1_idx.
           bindE (pick s_sub (s_sampler_idxs self) (p2 + c)) (\<lambda>x2_idx.
           bindE (index (imgs sd) x1_idx) (\<lambda>a.
           bindE (index (imgs sd) x2_idx) (\<lambda>b. Inr (x1_idx, x2_idx, a, b))))) of
        Inl _ \<Rightarrow> (self, False)
      | Inr (x1_idx, x2_idx, a, b) \<Rightarrow>
          (let self' = self\<lparr>G1_img_paths := G1_img_paths self @ [(a, b)]\<rparr> in
           case bindE (index (labels sd) x1_idx) (\<lambda>l1.
                bindE (index (labels sd) x2_idx) (\<lambda>l2. Inr (l1, l2))) of
             Inl _ \<Rightarrow> (self', False)
           | Inr l \<Rightarrow> (self'\<lparr>G1_labels := G1_labels self' @ [(0, l)]\<rparr>, True)))"

lemma bindE_cong [fundef_cong]:
  "m = m' \<Longrightarrow> (\<And>x. m' = Inr x \<Longrightarrow> f x = f' x) \<Longrightarrow> bindE m f = bindE m' f'"
  by (auto simp: bindE_def split: sum.splits)

lemma randint_shorter: "randint b rs = Inr (v, rs') \<Longrightarrow> length rs' < length rs"
  by (auto simp: randint_def split: if_splits list.splits)

function G1_loop :: "pair_dataset \<Rightarrow> nat \<Rightarrow> rng \<Rightarrow> error + (pair_dataset \<times> rng)" where
  "G1_loop self pair_cnt rs =
     (if pair_cnt < num_G1_pairs self then
        bindE (randint (num_s_partitions self) rs) (\<lambda>(r1, rs1).
        bindE (randint (num_s_partitions self) rs1) (\<lambda>(r2, rs2).
        bindE (randint (int (num_classes (s_sampler self)) - 1) rs2) (\<lambda>(c, rs3).
          case G1_try self (r1 * num_classes (s_sampler self))
                           (r2 * num_classes (s_sampler self)) c of
            (self', ok) \<Rightarrow> G1_loop self' (if ok then pair_cnt + 1 else pair_cnt) rs3)))
      else Inr (self, rs))"
  by pat_completeness auto
termination
  by (relation "measure (\<lambda>(self, pair_cnt, rs). length rs)")
     (auto dest!: randint_shorter)

text \<open>
  One pair read through two sampler index lists: both sample indices, then both image
  paths, then both labels; the first \<^verbatim>\<open>IndexError\<close> is raised (the loops of
  G2, G3 and G4 do not catch it).
\<close>

definition read_pair ::
  "dataset \<Rightarrow> nat list \<Rightarrow> nat \<Rightarrow> dataset \<Rightarrow> nat list \<Rightarrow> nat \<Rightarrow> error + (img_pair \<times> (nat \<times> nat))" where
  "read_pair d1 idxs1 k1 d2 idxs2 k2 =
     bindE (pick (subset d1) idxs1 k1) (\<lambda>x1_idx.
     bindE (pick (subset d2) idxs2 k2) (\<lambda>x2_idx.
     bindE (index (imgs d1) x1_idx) (\<lambda>a.
     bindE (index (imgs d2) x2_idx) (\<lambda>b.
     bindE (index (labels d1) x1_idx) (\<lambda>l1.
     bindE (index (labels d2) x2_idx) (\<lambda>l2. Inr ((a, b), (l1, l2))))))))"

text \<open>
  The loops of G2, G3 and G4 have no retry, so \<^verbatim>\<open>while pair_cnt < n\<close> runs its
  body \<open>n\<close> times; the recursion is on the number of rounds left.
\<close>

fun G2_loop :: "pair_dataset \<Rightarrow> nat \<Rightarrow> rng \<Rightarrow> error + (pair_dataset \<times> rng)" where
  "G2_loop self 0 rs = Inr (self, rs)"
| "G2_loop self (Suc n) rs =
     bindE (randint (num_s_partitions self) rs) (\<lambda>(r1, rs1).
     bindE (randint (num_t_partitions self) rs1) (\<lambda>(r2, rs2).
     bindE (randint (int (num_classes (s_sampler self)) - 1) rs2) (\<lambda>(c, rs3).
     bindE (read_pair (source_dataset self) (s_sampler_idxs self)
                      (r1 * num_classes (s_sampler self) + c)
                      (target_dataset self) (t_sampler_idxs self)
                      (r2 * num_classes (s_sampler self) + c)) (\<lambda>(paths, l).
       G2_loop (self\<lparr>G2_img_paths := G2_img_paths self @ [paths],
                      G2_labels := G2_labels self @ [(if adv_stage self then 0 else 1, l)]\<rparr>)
               n rs3))))"

fun G3_loop :: "pair_dataset \<Rightarrow> nat \<Rightarrow> rng \<Rightarrow> error + (pair_dataset \<times> rng)" where
  "G3_loop self 0 rs = Inr (self, rs)"
| "G3_loop self (Suc n) rs =
     bindE (randint (num_s_partitions self) rs) (\<lambda>(r1, rs1).
     bindE (randint (num_s_partitions self) rs1) (\<lambda>(r2, rs2).
     bindE (sample2 (num_classes (s_sampler self)) rs2) (\<lambda>((c1, c2), rs3).
     bindE (read_pair (source_dataset self) (s_sampler_idxs self)
                      (r1 * num_classes (s_sampler self) + c1)
                      (source_dataset self) (s_sampler_idxs self)
                      (r2 * num_classes (s_sampler self) + c2)) (\<lambda>(paths, l).
       G3_loop (self\<lparr>G3_img_paths := G3_img_paths self @ [paths],
                      G3_labels := G3_labels self @ [(2, l)]\<rparr>)
               n rs3))))"

fun G4_loop :: "pair_dataset \<Rightarrow> nat \<Rightarrow> rng \<Rightarrow> error + (pair_dataset \<times> rng)" where
  "G4_loop self 0 rs = Inr (self, rs)"
| "G4_loop self (Suc n) rs =
     bindE (randint (num_s_partitions self) rs) (\<lambda>(r1, rs1).
     bindE (randint (num_t_partitions self) rs1) (\<lambda>(r2, rs2).
     bindE (sample2 (num_classes (s_sampler self)) rs2) (\<lambda>((c1, c2), rs3).
     bindE (read_pair (source_dataset self) (s_sampler_idxs self)
                      (r1 * num_classes (s_sampler self) + c1)
                      (target_dataset self) (t_sampler_idxs self)
                      (r2 * num_classes (t_sampler self) + c2)) (\<lambda>(paths, l).
       G4_loop (self\<lparr>G4_img_paths := G4_img_paths self @ [paths],
                      G4_labels := G4_labels self @ [(if adv_stage self then 2 else 3, l)]\<rparr>)
               n rs3))))"

text \<open>
  The constructor. The two directory arguments stand for what \<^verbatim>\<open>os.walk\<close> finds at
  the two paths; they are read only when the datasets are not both supplied.
  \<^verbatim>\<open>len(idxs)/num_classes - 1\<close> is a true division in the source; the length is a
  multiple of the number of classes (lemma \<open>iter_length\<close> below), so the quotient is
  integral and \<^verbatim>\<open>random.randint\<close> accepts it. The loop of G4 runs while
  \<^verbatim>\<open>pair_cnt < self.num_G2_pairs\<close>, as in the source.
\<close>

definition DomainAdaptationPairDataset_init ::
  "directory \<Rightarrow> directory \<Rightarrow> int \<Rightarrow> nat \<Rightarrow> bool \<Rightarrow> dataset option \<Rightarrow> dataset option \<Rightarrow>
   nat list option \<Rightarrow> rng \<Rightarrow> error + (pair_dataset \<times> rng)" where
  "DomainAdaptationPairDataset_init source_img_dir target_img_dir sh pair_factor adv
       source_ds target_ds sub rs =
     bindE (case (source_ds, target_ds) of
              (Some sd, Some td) \<Rightarrow> Inr (sd, td)
            | _ \<Rightarrow>
                if map fst (subdirs source_img_dir) \<noteq> map fst (subdirs target_img_dir)
                then Inl (AssertionError ''source and target classes not the same'')
                else bindE (ClassificationDataset source_img_dir None) (\<lambda>sd.
                     bindE (ClassificationDataset target_img_dir None) (\<lambda>td. Inr (sd, td))))
       (\<lambda>(sd, td).
     bindE (EvenSampler_init sd (- 1)) (\<lambda>ss.
     bindE (EvenSampler_init td sh) (\<lambda>ts.
     bindE (capacities ss ts) (\<lambda>(g1, g2, g3, g4).
     if pair_factor = 0 then Inl ZeroDivisionError
     else
       let mp = min (min g1 g2) (min g3 g4) div pair_factor in
       bindE (EvenSampler_iter ss rs) (\<lambda>(s_idxs, ss', rs1).
       bindE (EvenSampler_iter ts rs1) (\<lambda>(t_idxs, ts', rs2).
       bindE (G1_loop \<lparr> pd_shot = sh, adv_stage = adv,
                        source_dataset = sd, target_dataset = td,
                        s_sampler = ss', t_sampler = ts',
                        num_G1_pairs = min g1 (pair_factor * mp),
                        num_G2_pairs = min g2 (pair_factor * mp),
                        num_G3_pairs = min g3 (pair_factor * mp),
                        num_G4_pairs = min g4 (pair_factor * mp),
                        min_pairs = mp, min_pairs_multiple = pair_factor,
                        G1_img_paths = [], G1_labels = [],
                        G2_img_paths = [], G2_labels = [],
                        G3_img_paths = [], G3_labels = [],
                        G4_img_paths = [], G4_labels = [],
                        s_sampler_idxs = s_idxs, t_sampler_idxs = t_idxs,
                        num_s_partitions = int (length s_idxs div num_classes ss') - 1,
                        num_t_partitions = int (length t_idxs div num_classes ts') - 1,
                        group_imgs = [], group_labels = [], pd_subset = [] \<rparr> 0 rs2)
         (\<lambda>(self1, rs3).
       bindE (G2_loop self1 (num_G2_pairs self1) rs3) (\<lambda>(self2, rs4).
       bindE (G3_loop self2 (num_G3_pairs self2) rs4) (\<lambda>(self3, rs5).
       bindE (G4_loop self3 (num_G2_pairs self3) rs5) (\<lambda>(self4, rs6).
         Inr (self4\<lparr>
                group_imgs :=
                  (if adv then [G2_img_paths self4, G4_img_paths self4]
                   else [G1_img_paths self4, G2_img_paths self4,
                         G3_img_paths self4, G4_img_paths self4]),
                group_labels :=
                  (if adv then [G2_labels self4, G4_labels self4]
                   else [G1_labels self4, G2_labels self4, G3_labels self4, G4_labels self4]),
                pd_subset :=
                  (case sub of
                     None \<Rightarrow> if adv then [0..<2 * mp] else [0..<4 * mp]
                   | Some s \<Rightarrow> s)\<rparr>, rs6)))))))))))"

definition pair_dataset_len :: "pair_dataset \<Rightarrow> nat" where
  "pair_dataset_len self = length (pd_subset self)"

subsection \<open>pairs\_get\_datasets\<close>

text \<open>
  \<^verbatim>\<open>conf.validation_split\<close> is a float used only in
  \<^verbatim>\<open>int(len(train_dataset)*conf.validation_split)\<close>; that floating-point computation
  is the parameter \<open>val_size_of\<close>. \<^verbatim>\<open>data\<close> holds what \<^verbatim>\<open>os.walk\<close> finds at
  the \<^verbatim>\<open>train\<close> directories of the source and of the target domain.
\<close>

record conf =
  conf_k :: int
  constrained_validation :: bool

definition pairs_get_datasets ::
  "directory \<times> directory \<Rightarrow> conf \<Rightarrow> (nat \<Rightarrow> nat) \<Rightarrow> nat \<Rightarrow> rng \<Rightarrow>
   error + ((pair_dataset \<times> pair_dataset) \<times> rng)" where
  "pairs_get_datasets data cf val_size_of pair_factor rs =
     (case data of (src, tgt) \<Rightarrow>
      bindE (DomainAdaptationPairDataset_init src tgt (conf_k cf) pair_factor False None None None rs)
        (\<lambda>(train0, rs1).
      if constrained_validation cf then
        bindE (randperm (pair_dataset_len train0) rs1) (\<lambda>(indices, rs2).
        let val_size = val_size_of (pair_dataset_len train0) in
        bindE (DomainAdaptationPairDataset_init src tgt (conf_k cf) pair_factor False None None
                 (Some (drop val_size indices)) rs2) (\<lambda>(train_dataset, rs3).
        bindE (DomainAdaptationPairDataset_init src tgt (conf_k cf) pair_factor False None None
                 (Some (take val_size indices)) rs3) (\<lambda>(val_dataset, rs4).
          Inr ((train_dataset, val_dataset), rs4))))
      else if \<not> 3 \<le> conf_k cf then
        Inl (AssertionError
          ''k must be >= 3, must have at least one sample per class in the validation set'')
      else
        bindE (ClassificationDataset src None) (\<lambda>source0.
        bindE (randperm (dataset_len source0) rs1) (\<lambda>(indices, rs2).
        let val_size = dataset_len source0 div 3 in
        bindE (ClassificationDataset src (Some (drop val_size indices))) (\<lambda>source_train_dataset.
        bindE (ClassificationDataset src (Some (take val_size indices))) (\<lambda>source_val_dataset.
        bindE (ClassificationDataset tgt None) (\<lambda>target0.
        bindE (EvenSampler_init target0 (conf_k cf)) (\<lambda>sampler.
        bindE (EvenSampler_iter sampler rs2) (\<lambda>(idxs, sampler', rs3).
        let val_k = conf_k cf div 3;
            cut = int (num_classes sampler') * val_k in
        bindE (ClassificationDataset tgt (Some (slice_from idxs cut))) (\<lambda>target_train_dataset.
        bindE (ClassificationDataset tgt (Some (slice_to idxs cut))) (\<lambda>target_val_dataset.
        bindE (mapE (index (labels target_val_dataset)) (slice_to idxs cut)) (\<lambda>_.
        bindE (DomainAdaptationPairDataset_init src tgt (conf_k cf - val_k) pair_factor False
                 (Some source_train_dataset) (Some target_train_dataset) None rs3)
          (\<lambda>(train_dataset, rs4).
        bindE (DomainAdaptationPairDataset_init src tgt val_k pair_factor False
                 (Some source_val_dataset) (Some target_val_dataset) None rs4)
          (\<lambda>(val_dataset, rs5).
          Inr ((train_dataset, val_dataset), rs5)))))))))))))))"

subsection \<open>Notions used in the statements\<close>

text \<open>
  \<open>iterated s0 s\<close>: the sampler state \<open>s\<close> is what \<open>s0\<close> has become after any number
  of calls of \<^verbatim>\<open>__iter__\<close> (each call stores its cut buckets in the sampler).
\<close>

inductive iterated :: "sampler \<Rightarrow> sampler \<Rightarrow> bool" for s0 :: sampler where
  fresh: "iterated s0 s0"
| again: "iterated s0 s \<Longrightarrow> EvenSampler_iter s rs = Inr (out, s', rs') \<Longrightarrow> iterated s0 s'"

definition bucket_inv :: "sampler \<Rightarrow> bool" where
  "bucket_inv s \<longleftrightarrow>
     0 < num_classes s \<and> length (class_idxs s) = num_classes s \<and>
     (\<forall>c<num_classes s. min_len s \<le> length (class_idxs s ! c) \<and>
        (\<forall>i\<in>set (class_idxs s ! c). i < length (sam_labels s) \<and> sam_labels s ! i = c))"

text \<open>The scenario of the specification: ten images of class 0 (cat), four of class 1 (dog).\<close>

definition catdog :: dataset where
  "catdog = \<lparr> imgs = map (\<lambda>i. ''cat'') [0..<10] @ map (\<lambda>i. ''dog'') [0..<4],
              labels = replicate 10 0 @ replicate 4 1, subset = [0..<14] \<rparr>"

text \<open>Three classes with one image each; the subset in use leaves class 1 out.\<close>

definition gap_ds :: dataset where
  "gap_ds = \<lparr> imgs = [''a/0'', ''b/0'', ''c/0''], labels = [0, 1, 2], subset = [0, 2] \<rparr>"

text \<open>Three images of class 0 and one of class 1.\<close>

definition skew_ds :: dataset where
  "skew_ds = \<lparr> imgs = [''a/0'', ''a/1'', ''a/2'', ''b/0''], labels = [0, 0, 0, 1],
               subset = [0, 1, 2, 3] \<rparr>"

text \<open>
  A small source and target domain, two classes with two images each, given as datasets,
  and one outcome of all the draws of a construction over them with \<open>shot = 2\<close>: the two
  shuffles of each sampler, then two pairs for each of the four groups.
\<close>

definition src22 :: dataset where
  "src22 = \<lparr> imgs = [''s/a/0'', ''s/a/1'', ''s/b/0'', ''s/b/1''], labels = [0, 0, 1, 1],
             subset = [0, 1, 2, 3] \<rparr>"

definition tgt22 :: dataset where
  "tgt22 = \<lparr> imgs = [''t/a/0'', ''t/a/1'', ''t/b/0'', ''t/b/1''], labels = [0, 0, 1, 1],
             subset = [0, 1, 2, 3] \<rparr>"

definition no_dir :: directory where
  "no_dir = \<lparr> dir_path = [], subdirs = [] \<rparr>"

definition draws22 :: rng where
  "draws22 = [0, 1, 0, 1] @ [0, 1, 0, 1] @ [0, 0, 0, 1, 1, 1] @ [0, 0, 0, 1, 1, 1] @
             [0, 0, 0, 1, 1, 1, 1, 0] @ [0, 0, 0, 1, 1, 1, 1, 0]"

text \<open>
  The capacity formulas in the words of the specification. The count of a class is the
  number of samples of the subset in use that carry its label; the target count is what
  the \<open>shot\<close> truncation \<^verbatim>\<open>[0:shot]\<close> leaves of it (\<open>shot = -1\<close>: everything).
\<close>

definition sampled_labels :: "dataset \<Rightarrow> nat list" where
  "sampled_labels ds = map ((!) (labels ds)) (subset ds)"

definition n_classes :: "dataset \<Rightarrow> nat" where
  "n_classes ds = card (set (sampled_labels ds))"

definition source_count :: "dataset \<Rightarrow> nat \<Rightarrow> nat" where
  "source_count sd c = count_list (sampled_labels sd) c"

definition target_count :: "dataset \<Rightarrow> int \<Rightarrow> nat \<Rightarrow> nat" where
  "target_count td sh c =
     (let n = count_list (sampled_labels td) c
      in if sh = - 1 then n else if 0 \<le> sh then min n (nat sh) else n - nat (- sh))"

definition SS_same_class :: "dataset \<Rightarrow> nat" where
  "SS_same_class sd = (\<Sum>c<n_classes sd. source_count sd c choose 2)"

definition ST_same_class :: "dataset \<Rightarrow> dataset \<Rightarrow> int \<Rightarrow> nat" where
  "ST_same_class sd td sh = (\<Sum>c<n_classes td. source_count sd c * target_count td sh c)"

definition SS_diff_class :: "dataset \<Rightarrow> nat" where
  "SS_diff_class sd = length (subset sd) choose 2"

definition ST_diff_class :: "dataset \<Rightarrow> dataset \<Rightarrow> int \<Rightarrow> nat" where
  "ST_diff_class sd td sh =
     (\<Sum>c'<n_classes td. \<Sum>c\<in>{..<n_classes sd} - {c'}.
        source_count sd c * target_count td sh c')"

text \<open>The scenario of the specification: 2 source classes of 20 images, 2 target classes of 3.\<close>

definition src_2x20 :: dataset where
  "src_2x20 = \<lparr> imgs = map (\<lambda>i. ''s'') [0..<40], labels = replicate 20 0 @ replicate 20 1,
                subset = [0..<40] \<rparr>"

definition tgt_2x3 :: dataset where
  "tgt_2x3 = \<lparr> imgs = map (\<lambda>i. ''t'') [0..<6], labels = replicate 3 0 @ replicate 3 1,
               subset = [0..<6] \<rparr>"

section \<open>Basic facts\<close>

lemma bindE_Inl [simp]: "bindE (Inl e) f = Inl e"
  by (simp add: bindE_def)

lemma bindE_Inr [simp]: "bindE (Inr x) f = f x"
  by (simp add: bindE_def)

lemma bindE_eq_Inr: "bindE m f = Inr y \<longleftrightarrow> (\<exists>x. m = Inr x \<and> f x = Inr y)"
  by (cases m) auto

lemma bindE_eq_Inl: "bindE m f = Inl e \<longleftrightarrow> m = Inl e \<or> (\<exists>x. m = Inr x \<and> f x = Inl e)"
  by (cases m) auto

lemma index_eq_Inr: "index xs i = Inr y \<longleftrightarrow> i < length xs \<and> y = xs ! i"
  by (auto simp: index_def)

lemma index_eq_Inl: "index xs i = Inl e \<longleftrightarrow> \<not> i < length xs \<and> e = IndexError"
  by (auto simp: index_def)

lemma mapE_index_Inr:
  "mapE (index L) xs = Inr ys \<longleftrightarrow> (\<forall>x\<in>set xs. x < length L) \<and> ys = map ((!) L) xs"
  by (induction xs arbitrary: ys) (auto simp: bindE_eq_Inr index_eq_Inr)

lemma mapE_index_Inl: "mapE (index L) xs = Inl e \<Longrightarrow> e = IndexError"
  by (induction xs) (auto simp: bindE_eq_Inl index_eq_Inl)

lemma randperm_Inr:
  "randperm n rs = Inr (p, rs') \<longleftrightarrow> length p = n \<and> set p = {0..<n} \<and> rs = p @ rs'"
proof
  assume r: "randperm n rs = Inr (p, rs')"
  then have n: "n \<le> length rs"
    by (simp add: randperm_def split: if_splits)
  with r have "set (take n rs) = {0..<n}" and "p = take n rs" and "rs' = drop n rs"
    by (simp_all add: randperm_def split: if_splits)
  with n show "length p = n \<and> set p = {0..<n} \<and> rs = p @ rs'"
    by simp
next
  assume "length p = n \<and> set p = {0..<n} \<and> rs = p @ rs'"
  then show "randperm n rs = Inr (p, rs')"
    by (simp add: randperm_def)
qed

lemma randperm_Inl: "randperm n rs = Inl e \<Longrightarrow> e = NotARun"
  by (simp add: randperm_def split: if_splits)

lemma perm_mset:
  assumes "length p = n" and "set p = {0..<n}"
  shows "mset p = mset [0..<n]"
proof -
  have "card (set p) = length p" using assms by simp
  then have "distinct p" by (simp add: card_distinct)
  then have "mset p = mset_set (set p)" by (simp add: mset_set_set)
  also have "\<dots> = mset [0..<n]" using assms by (simp add: mset_upt)
  finally show ?thesis .
qed

lemma shuffled_mset:
  assumes "length p = length c" and "set p = {0..<length c}"
  shows "mset (map (\<lambda>j. c ! j) p) = mset c"
proof -
  have "mset (map (\<lambda>j. c ! j) p) = image_mset (\<lambda>j. c ! j) (mset p)" by simp
  also have "\<dots> = image_mset (\<lambda>j. c ! j) (mset [0..<length c])"
    using perm_mset [OF assms] by simp
  also have "\<dots> = mset (map (\<lambda>j. c ! j) [0..<length c])" by simp
  also have "\<dots> = mset c" by (simp add: map_nth)
  finally show ?thesis .
qed

lemma shuffle_buckets_Inr:
  assumes "shuffle_buckets m cs rs = Inr (cs', rs')"
  shows "list_all2 (\<lambda>c c'. \<exists>p. mset p = mset c \<and> c' = take m p) cs cs'"
  using assms
proof (induction cs arbitrary: cs' rs)
  case Nil
  then show ?case by simp
next
  case (Cons c cs)
  from Cons.prems obtain p rs1 cs1 where
    p: "randperm (length c) rs = Inr (p, rs1)" and
    rest: "shuffle_buckets m cs rs1 = Inr (cs1, rs')" and
    cs': "cs' = take m (map (\<lambda>j. c ! j) p) # cs1"
    by (auto simp: bindE_eq_Inr)
  from p have "length p = length c" and "set p = {0..<length c}"
    by (simp_all add: randperm_Inr)
  then have "mset (map (\<lambda>j. c ! j) p) = mset c"
    by (rule shuffled_mset)
  then have "\<exists>q. mset q = mset c \<and> take m (map (\<lambda>j. c ! j) p) = take m q"
    by blast
  with Cons.IH [OF rest] cs' show ?case
    by simp
qed

lemma shuffle_buckets_Inl: "shuffle_buckets m cs rs = Inl e \<Longrightarrow> e = NotARun"
  by (induction cs arbitrary: rs) (auto simp: bindE_eq_Inl dest: randperm_Inl)

lemma shuffle_buckets_identity:
  "shuffle_buckets m cs (concat (map (\<lambda>c. [0..<length c]) cs) @ rest) = Inr (map (take m) cs, rest)"
proof (induction cs)
  case Nil
  then show ?case by simp
next
  case (Cons c cs)
  have "randperm (length c) ([0..<length c] @ concat (map (\<lambda>c. [0..<length c]) cs) @ rest)
        = Inr ([0..<length c], concat (map (\<lambda>c. [0..<length c]) cs) @ rest)"
    by (simp add: randperm_Inr)
  with Cons show ?case by (simp add: map_nth)
qed

lemma set_slice_to: "x \<in> set (slice_to xs n) \<Longrightarrow> x \<in> set xs"
  by (auto simp: slice_to_def split: if_splits dest: in_set_takeD)

lemma EvenSampler_init_Inr:
  assumes "EvenSampler_init ds sh = Inr s"
  shows "\<forall>x\<in>set (subset ds). x < length (labels ds)"
    and "sam_labels s = map ((!) (labels ds)) (subset ds)"
    and "num_classes s = length (remdups (sam_labels s))"
    and "0 < num_classes s"
    and "class_idxs s = map (\<lambda>c. if sh \<noteq> - 1 then slice_to (nonzero_eq (sam_labels s) c) sh
                                   else nonzero_eq (sam_labels s) c) [0..<num_classes s]"
    and "class_idx_lens s = map length (class_idxs s)"
    and "min_len s = Min (set (class_idx_lens s))"
    and "shot s = sh"
proof -
  from assms obtain ls where
    ls: "mapE (index (labels ds)) (subset ds) = Inr ls" and
    s: "(let n = length (remdups ls);
           idxs = map (\<lambda>c. if sh \<noteq> - 1 then slice_to (nonzero_eq ls c) sh
                            else nonzero_eq ls c) [0..<n];
           remain = (if sh \<noteq> - 1 then map (\<lambda>c. slice_from (nonzero_eq ls c) sh) [0..<n]
                     else []);
           lens = map length idxs
       in if lens = [] then Inl ValueError
          else Inr \<lparr> sam_labels = ls, shot = sh, num_classes = n, class_idxs = idxs,
                     remain_class_idxs = remain, class_idx_lens = lens,
                     max_len = Max (set lens), min_len = Min (set lens) \<rparr>) = Inr s"
    unfolding EvenSampler_init_def bindE_eq_Inr by blast
  from ls show "\<forall>x\<in>set (subset ds). x < length (labels ds)"
    by (simp add: mapE_index_Inr)
  from ls have ls': "ls = map ((!) (labels ds)) (subset ds)"
    by (simp add: mapE_index_Inr)
  from s have n0: "length (remdups ls) \<noteq> 0"
    by (auto simp: Let_def split: if_splits)
  with s have s': "s = \<lparr> sam_labels = ls, shot = sh, num_classes = length (remdups ls),
       class_idxs = map (\<lambda>c. if sh \<noteq> - 1 then slice_to (nonzero_eq ls c) sh
                            else nonzero_eq ls c) [0..<length (remdups ls)],
       remain_class_idxs = (if sh \<noteq> - 1
          then map (\<lambda>c. slice_from (nonzero_eq ls c) sh) [0..<length (remdups ls)] else []),
       class_idx_lens = map length (map (\<lambda>c. if sh \<noteq> - 1 then slice_to (nonzero_eq ls c) sh
                            else nonzero_eq ls c) [0..<length (remdups ls)]),
       max_len = Max (set (map length (map (\<lambda>c. if sh \<noteq> - 1 then slice_to (nonzero_eq ls c) sh
                            else nonzero_eq ls c) [0..<length (remdups ls)]))),
       min_len = Min (set (map length (map (\<lambda>c. if sh \<noteq> - 1 then slice_to (nonzero_eq ls c) sh
                            else nonzero_eq ls c) [0..<length (remdups ls)]))) \<rparr>"
    by (simp add: Let_def split: if_splits)
  show "sam_labels s = map ((!) (labels ds)) (subset ds)" using s' ls' by simp
  show "num_classes s = length (remdups (sam_labels s))" using s' by simp
  show "0 < num_classes s" using s' n0 by simp
  show "class_idxs s = map (\<lambda>c. if sh \<noteq> - 1 then slice_to (nonzero_eq (sam_labels s) c) sh
                                   else nonzero_eq (sam_labels s) c) [0..<num_classes s]"
    using s' by simp
  show "class_idx_lens s = map length (class_idxs s)" using s' by simp
  show "min_len s = Min (set (class_idx_lens s))" using s' by simp
  show "shot s = sh" using s' by simp
qed

lemma EvenSampler_init_inv:
  assumes "EvenSampler_init ds sh = Inr s"
  shows "bucket_inv s"
proof -
  note f = EvenSampler_init_Inr [OF assms]
  have len: "length (class_idxs s) = num_classes s"
    by (subst f(5)) simp
  have nth: "class_idxs s ! c = (if sh \<noteq> - 1 then slice_to (nonzero_eq (sam_labels s) c) sh
                              else nonzero_eq (sam_labels s) c)" if "c < num_classes s" for c
    using that by (subst f(5)) simp
  have a: "min_len s \<le> length (class_idxs s ! c)" if "c < num_classes s" for c
  proof -
    have "length (class_idxs s ! c) \<in> set (class_idx_lens s)"
      using that len unfolding f(6) by simp
    then show ?thesis unfolding f(7) by simp
  qed
  have b: "i < length (sam_labels s) \<and> sam_labels s ! i = c"
    if "c < num_classes s" and "i \<in> set (class_idxs s ! c)" for c i
  proof -
    from that have "i \<in> set (nonzero_eq (sam_labels s) c)"
      by (auto simp: nth split: if_splits dest: set_slice_to)
    then show ?thesis by (simp add: nonzero_eq_def)
  qed
  show ?thesis
    unfolding bucket_inv_def
  proof (intro conjI allI impI ballI)
    show "0 < num_classes s" by (rule f(4))
    show "length (class_idxs s) = num_classes s" by (rule len)
  next
    fix c assume "c < num_classes s"
    then show "min_len s \<le> length (class_idxs s ! c)" by (rule a)
  next
    fix c i assume "c < num_classes s" and "i \<in> set (class_idxs s ! c)"
    then show "i < length (sam_labels s)" and "sam_labels s ! i = c"
      using b by blast+
  qed
qed

lemma concat_block:
  assumes "\<forall>xs\<in>set xss. length xs = n" and "b < length xss"
  shows "take n (drop (b * n) (concat xss)) = xss ! b"
  using assms
proof (induction xss arbitrary: b)
  case Nil
  then show ?case by simp
next
  case (Cons xs xss)
  show ?case
  proof (cases b)
    case 0
    with Cons.prems show ?thesis by simp
  next
    case (Suc b')
    with Cons.prems have "take n (drop (b' * n) (concat xss)) = xss ! b'"
      by (intro Cons.IH) simp_all
    moreover have "drop (b * n) (concat (xs # xss)) = drop (b' * n) (concat xss)"
      using Cons.prems Suc by simp
    ultimately show ?thesis using Suc by simp
  qed
qed

lemma length_concat_rows:
  assumes "\<forall>xs\<in>set xss. length xs = n"
  shows "length (concat xss) = length xss * n"
  using assms by (induction xss) simp_all

lemma stack_flat_uniform:
  assumes "ts \<noteq> []" and "\<forall>t\<in>set ts. length t = m"
  shows "stack_flat ts = Inr (concat (map (\<lambda>j. map (\<lambda>t. t ! j) ts) [0..<m]))"
proof -
  from assms have "length (hd ts) = m" by simp
  moreover from assms have "\<not> list_ex (\<lambda>t. length t \<noteq> length (hd ts)) ts"
    by (simp add: list_ex_iff)
  ultimately show ?thesis using assms(1) by (simp add: stack_flat_def)
qed

text \<open>What one call of \<open>__iter__\<close> does to a sampler whose buckets all hold at least
  \<open>min_len\<close> indices of their own class.\<close>

lemma EvenSampler_iter_step:
  assumes inv: "bucket_inv s" and it: "EvenSampler_iter s rs = Inr (out, s', rs')"
  shows "s' = s\<lparr>class_idxs := class_idxs s'\<rparr>"
    and "length (class_idxs s') = num_classes s"
    and "\<forall>c<num_classes s. length (class_idxs s' ! c) = min_len s \<and>
           (\<exists>p. mset p = mset (class_idxs s ! c) \<and> class_idxs s' ! c = take (min_len s) p)"
    and "out = concat (map (\<lambda>j. map (\<lambda>t. t ! j) (class_idxs s')) [0..<min_len s])"
proof -
  from it obtain cs' where
    sh: "shuffle_buckets (min_len s) (class_idxs s) rs = Inr (cs', rs')" and
    st: "stack_flat cs' = Inr out" and s': "s' = s\<lparr>class_idxs := cs'\<rparr>"
    by (auto simp: EvenSampler_iter_def bindE_eq_Inr)
  from s' have cs': "class_idxs s' = cs'" by simp
  note l2 = shuffle_buckets_Inr [OF sh]
  from inv have nc: "0 < num_classes s" and len: "length (class_idxs s) = num_classes s"
    and ge: "\<And>c. c < num_classes s \<Longrightarrow> min_len s \<le> length (class_idxs s ! c)"
    by (simp_all add: bucket_inv_def)
  from l2 len have len': "length cs' = num_classes s"
    by (simp add: list_all2_lengthD)
  have each: "length (cs' ! c) = min_len s \<and>
           (\<exists>p. mset p = mset (class_idxs s ! c) \<and> cs' ! c = take (min_len s) p)"
    if "c < num_classes s" for c
  proof -
    from l2 that len obtain p where
      p: "mset p = mset (class_idxs s ! c)" "cs' ! c = take (min_len s) p"
      by (auto simp: list_all2_conv_all_nth)
    from p(1) have "length p = length (class_idxs s ! c)"
      by (rule mset_eq_length)
    with ge [OF that] p show ?thesis by auto
  qed
  show "s' = s\<lparr>class_idxs := class_idxs s'\<rparr>" using s' by simp
  show "length (class_idxs s') = num_classes s" using len' cs' by simp
  show "\<forall>c<num_classes s. length (class_idxs s' ! c) = min_len s \<and>
           (\<exists>p. mset p = mset (class_idxs s ! c) \<and> class_idxs s' ! c = take (min_len s) p)"
    using each cs' by simp
  have "cs' \<noteq> []" using len' nc by auto
  moreover have "\<forall>t\<in>set cs'. length t = min_len s"
    using each len' by (auto simp: in_set_conv_nth)
  ultimately have "stack_flat cs' = Inr (concat (map (\<lambda>j. map (\<lambda>t. t ! j) cs') [0..<min_len s]))"
    by (rule stack_flat_uniform)
  with st show "out = concat (map (\<lambda>j. map (\<lambda>t. t ! j) (class_idxs s')) [0..<min_len s])"
    using cs' by simp
qed

lemma EvenSampler_iter_error:
  assumes inv: "bucket_inv s" and it: "EvenSampler_iter s rs = Inl e"
  shows "e = NotARun"
proof (cases "shuffle_buckets (min_len s) (class_idxs s) rs")
  case (Inl e')
  with it show ?thesis
    by (auto simp: EvenSampler_iter_def dest: shuffle_buckets_Inl)
next
  case (Inr r)
  obtain cs' rs' where r: "r = (cs', rs')" by (cases r)
  note l2 = shuffle_buckets_Inr [OF Inr [unfolded r]]
  from inv have nc: "0 < num_classes s" and len: "length (class_idxs s) = num_classes s"
    and ge: "\<And>c. c < num_classes s \<Longrightarrow> min_len s \<le> length (class_idxs s ! c)"
    by (simp_all add: bucket_inv_def)
  from l2 len have len': "length cs' = num_classes s"
    by (simp add: list_all2_lengthD)
  have each: "length (cs' ! c) = min_len s" if "c < num_classes s" for c
  proof -
    from l2 that len obtain p where
      p: "mset p = mset (class_idxs s ! c)" "cs' ! c = take (min_len s) p"
      by (auto simp: list_all2_conv_all_nth)
    from p(1) have "length p = length (class_idxs s ! c)"
      by (rule mset_eq_length)
    with ge [OF that] p show ?thesis by auto
  qed
  have "cs' \<noteq> []" using len' nc by auto
  moreover have "\<forall>t\<in>set cs'. length t = min_len s"
    using each len' by (auto simp: in_set_conv_nth)
  ultimately have "stack_flat cs' = Inr (concat (map (\<lambda>j. map (\<lambda>t. t ! j) cs') [0..<min_len s]))"
    by (rule stack_flat_uniform)
  with it Inr r show ?thesis
    by (simp add: EvenSampler_iter_def)
qed

lemma EvenSampler_iter_inv:
  assumes inv: "bucket_inv s" and it: "EvenSampler_iter s rs = Inr (out, s', rs')"
  shows "bucket_inv s'"
proof -
  note st = EvenSampler_iter_step [OF inv it]
  from st(1) have same: "num_classes s' = num_classes s" "min_len s' = min_len s"
    "sam_labels s' = sam_labels s"
    by (metis sampler.select_convs sampler.surjective sampler.update_convs(4))+
  from inv have nc: "0 < num_classes s"
    and own: "\<And>c i. c < num_classes s \<Longrightarrow> i \<in> set (class_idxs s ! c) \<Longrightarrow>
                i < length (sam_labels s) \<and> sam_labels s ! i = c"
    by (simp_all add: bucket_inv_def)
  have sub: "set (class_idxs s' ! c) \<subseteq> set (class_idxs s ! c)" if "c < num_classes s" for c
  proof -
    from st(3) that obtain p where
      p: "mset p = mset (class_idxs s ! c)" "class_idxs s' ! c = take (min_len s) p"
      by blast
    from p(1) have "set p = set (class_idxs s ! c)" by (rule mset_eq_setD)
    with p(2) show ?thesis by (auto dest: in_set_takeD)
  qed
  show ?thesis
    unfolding bucket_inv_def same
  proof (intro conjI allI impI ballI)
    show "0 < num_classes s" by (rule nc)
    show "length (class_idxs s') = num_classes s" by (rule st(2))
  next
    fix c assume "c < num_classes s"
    then show "min_len s \<le> length (class_idxs s' ! c)" using st(3) by simp
  next
    fix c i assume c: "c < num_classes s" and "i \<in> set (class_idxs s' ! c)"
    with sub have "i \<in> set (class_idxs s ! c)" by blast
    with c show "i < length (sam_labels s)" and "sam_labels s ! i = c"
      using own by blast+
  qed
qed

lemma iterated_inv:
  assumes "iterated s0 s" and "bucket_inv s0"
  shows "bucket_inv s \<and> num_classes s = num_classes s0 \<and> min_len s = min_len s0 \<and>
         sam_labels s = sam_labels s0"
  using assms
proof (induction rule: iterated.induct)
  case fresh
  then show ?case by simp
next
  case (again s rs out s' rs')
  then have inv: "bucket_inv s" by simp
  note st = EvenSampler_iter_step [OF inv again.hyps(2)]
  from st(1) have "num_classes s' = num_classes s" "min_len s' = min_len s"
    "sam_labels s' = sam_labels s"
    by (metis sampler.select_convs sampler.surjective sampler.update_convs(4))+
  with again EvenSampler_iter_inv [OF inv again.hyps(2)] show ?case by simp
qed

lemma EvenSampler_iter_identity_draw:
  assumes "bucket_inv s"
  shows "\<exists>r. EvenSampler_iter s (concat (map (\<lambda>c. [0..<length c]) (class_idxs s))) = Inr r"
proof -
  have sh: "shuffle_buckets (min_len s) (class_idxs s)
          (concat (map (\<lambda>c. [0..<length c]) (class_idxs s)))
        = Inr (map (take (min_len s)) (class_idxs s), [])"
    using shuffle_buckets_identity [of "min_len s" "class_idxs s" "[]"] by simp
  show ?thesis
  proof (cases "EvenSampler_iter s (concat (map (\<lambda>c. [0..<length c]) (class_idxs s)))")
    case (Inl e)
    with assms have "e = NotARun" by (rule EvenSampler_iter_error)
    with Inl sh have "stack_flat (map (take (min_len s)) (class_idxs s)) = Inl NotARun"
      by (simp add: EvenSampler_iter_def bindE_eq_Inl)
    then show ?thesis
      by (simp add: stack_flat_def split: if_splits)
  next
    case (Inr r)
    then show ?thesis by blast
  qed
qed

lemma slice_to_Nil: "slice_to [] n = []"
  by (simp add: slice_to_def)

lemma set_stack_rows:
  assumes "\<forall>t\<in>set cs. length t = m"
  shows "set (concat (map (\<lambda>j. map (\<lambda>t. t ! j) cs) [0..<m])) = \<Union> (set ` set cs)"
proof (intro equalityI subsetI)
  fix i assume "i \<in> set (concat (map (\<lambda>j. map (\<lambda>t. t ! j) cs) [0..<m]))"
  then obtain j t where "j < m" "t \<in> set cs" "i = t ! j" by auto
  with assms have "i \<in> set t" by simp
  with \<open>t \<in> set cs\<close> show "i \<in> \<Union> (set ` set cs)" by blast
next
  fix i assume "i \<in> \<Union> (set ` set cs)"
  then obtain t where t: "t \<in> set cs" "i \<in> set t" by blast
  with assms obtain j where "j < m" "i = t ! j"
    by (metis in_set_conv_nth)
  with t(1) show "i \<in> set (concat (map (\<lambda>j. map (\<lambda>t. t ! j) cs) [0..<m]))"
    by auto
qed

lemma randint_Inr: "randint b rs = Inr (v, rs') \<longleftrightarrow> 0 \<le> b \<and> int v \<le> b \<and> rs = v # rs'"
  by (auto simp: randint_def split: list.splits)

lemma G2_loop_Inr:
  assumes "G2_loop self n rs = Inr (self', rs')"
  shows "self' = self\<lparr>G2_img_paths := G2_img_paths self', G2_labels := G2_labels self'\<rparr> \<and>
         length (G2_img_paths self') = length (G2_img_paths self) + n \<and>
         length (G2_labels self') = length (G2_labels self) + n \<and>
         set (G2_labels self') \<subseteq>
           set (G2_labels self) \<union> {l. fst l = (if adv_stage self then 0 else 1)}"
  using assms
proof (induction n arbitrary: self rs)
  case 0
  then show ?case by simp
next
  case (Suc n)
  from Suc.prems obtain paths l rs3 where
    rest: "G2_loop (self\<lparr>G2_img_paths := G2_img_paths self @ [paths],
              G2_labels := G2_labels self @ [(if adv_stage self then 0 else 1, l)]\<rparr>) n rs3
           = Inr (self', rs')"
    by (auto simp: bindE_eq_Inr)
  from Suc.IH [OF rest] show ?case by auto
qed

lemma G3_loop_Inr:
  assumes "G3_loop self n rs = Inr (self', rs')"
  shows "self' = self\<lparr>G3_img_paths := G3_img_paths self', G3_labels := G3_labels self'\<rparr> \<and>
         length (G3_img_paths self') = length (G3_img_paths self) + n \<and>
         length (G3_labels self') = length (G3_labels self) + n \<and>
         set (G3_labels self') \<subseteq> set (G3_labels self) \<union> {l. fst l = 2}"
  using assms
proof (induction n arbitrary: self rs)
  case 0
  then show ?case by simp
next
  case (Suc n)
  from Suc.prems obtain paths l rs3 where
    rest: "G3_loop (self\<lparr>G3_img_paths := G3_img_paths self @ [paths],
              G3_labels := G3_labels self @ [(2, l)]\<rparr>) n rs3 = Inr (self', rs')"
    by (auto simp: bindE_eq_Inr)
  from Suc.IH [OF rest] show ?case by auto
qed

lemma G4_loop_Inr:
  assumes "G4_loop self n rs = Inr (self', rs')"
  shows "self' = self\<lparr>G4_img_paths := G4_img_paths self', G4_labels := G4_labels self'\<rparr> \<and>
         length (G4_img_paths self') = length (G4_img_paths self) + n \<and>
         length (G4_labels self') = length (G4_labels self) + n \<and>
         set (G4_labels self') \<subseteq>
           set (G4_labels self) \<union> {l. fst l = (if adv_stage self then 2 else 3)}"
  using assms
proof (induction n arbitrary: self rs)
  case 0
  then show ?case by simp
next
  case (Suc n)
  from Suc.prems obtain paths l rs3 where
    rest: "G4_loop (self\<lparr>G4_img_paths := G4_img_paths self @ [paths],
              G4_labels := G4_labels self @ [(if adv_stage self then 2 else 3, l)]\<rparr>) n rs3
           = Inr (self', rs')"
    by (auto simp: bindE_eq_Inr)
  from Suc.IH [OF rest] show ?case by auto
qed

declare G1_loop.simps [simp del]

lemma pick_Inr: "pick sub idxs i = Inr x \<Longrightarrow> x \<in> set sub"
  by (auto simp: pick_def bindE_eq_Inr index_eq_Inr)

lemma G1_try_cases:
  assumes wf: "\<forall>x\<in>set (subset (source_dataset self)). x < length (labels (source_dataset self))"
  shows "G1_try self p1 p2 c = (self, False) \<or>
         (\<exists>a b l. G1_try self p1 p2 c =
            (self\<lparr>G1_img_paths := G1_img_paths self @ [(a, b)],
                   G1_labels := G1_labels self @ [(0, l)]\<rparr>, True))"
proof -
  define sd where "sd = source_dataset self"
  define reads where "reads =
     bindE (pick (subset sd) (s_sampler_idxs self) (p1 + c)) (\<lambda>x1_idx.
     bindE (pick (subset sd) (s_sampler_idxs self) (p2 + c)) (\<lambda>x2_idx.
     bindE (index (imgs sd) x1_idx) (\<lambda>a.
     bindE (index (imgs sd) x2_idx) (\<lambda>b. Inr (x1_idx, x2_idx, a, b)))))"
  show ?thesis
  proof (cases reads)
    case (Inl e)
    then have "G1_try self p1 p2 c = (self, False)"
      by (simp add: G1_try_def Let_def reads_def sd_def)
    then show ?thesis by simp
  next
    case (Inr r)
    obtain x1 x2 a b where r: "r = (x1, x2, a, b)" by (cases r)
    from Inr r have "x1 \<in> set (subset sd)" "x2 \<in> set (subset sd)"
      by (auto simp: reads_def bindE_eq_Inr dest: pick_Inr)
    with wf have "x1 < length (labels sd)" "x2 < length (labels sd)"
      by (simp_all add: sd_def)
    then have "bindE (index (labels sd) x1) (\<lambda>l1.
                bindE (index (labels sd) x2) (\<lambda>l2. Inr (l1, l2)))
               = Inr (labels sd ! x1, labels sd ! x2)"
      by (simp add: index_def)
    with Inr r have "G1_try self p1 p2 c =
            (self\<lparr>G1_img_paths := G1_img_paths self @ [(a, b)],
                   G1_labels := G1_labels self @ [(0, (labels sd ! x1, labels sd ! x2))]\<rparr>, True)"
      by (simp add: G1_try_def Let_def reads_def [symmetric] sd_def [symmetric])
    then show ?thesis by blast
  qed
qed

lemma G1_loop_Inr:
  assumes "G1_loop self pair_cnt rs = Inr (self', rs')"
    and "\<forall>x\<in>set (subset (source_dataset self)). x < length (labels (source_dataset self))"
  shows "self' = self\<lparr>G1_img_paths := G1_img_paths self', G1_labels := G1_labels self'\<rparr> \<and>
         length (G1_img_paths self') =
           length (G1_img_paths self) + (num_G1_pairs self - pair_cnt) \<and>
         length (G1_labels self') =
           length (G1_labels self) + (num_G1_pairs self - pair_cnt) \<and>
         set (G1_labels self') \<subseteq> set (G1_labels self) \<union> {l. fst l = 0}"
  using assms
proof (induction self pair_cnt rs rule: G1_loop.induct)
  case (1 self pair_cnt rs)
  show ?case
  proof (cases "pair_cnt < num_G1_pairs self")
    case False
    with "1.prems"(1) show ?thesis
      by (simp add: G1_loop.simps [of self pair_cnt rs])
  next
    case True
    have unf: "G1_loop self pair_cnt rs =
        bindE (randint (num_s_partitions self) rs) (\<lambda>(r1, rs1).
        bindE (randint (num_s_partitions self) rs1) (\<lambda>(r2, rs2).
        bindE (randint (int (num_classes (s_sampler self)) - 1) rs2) (\<lambda>(c, rs3).
          case G1_try self (r1 * num_classes (s_sampler self))
                           (r2 * num_classes (s_sampler self)) c of
            (self', ok) \<Rightarrow> G1_loop self' (if ok then pair_cnt + 1 else pair_cnt) rs3)))"
      using True by (subst G1_loop.simps) simp
    from "1.prems"(1) [unfolded unf] obtain r1 rs1 r2 rs2 c rs3 where
      d1: "randint (num_s_partitions self) rs = Inr (r1, rs1)" and
      d2: "randint (num_s_partitions self) rs1 = Inr (r2, rs2)" and
      d3: "randint (int (num_classes (s_sampler self)) - 1) rs2 = Inr (c, rs3)" and
      k: "(case G1_try self (r1 * num_classes (s_sampler self))
                           (r2 * num_classes (s_sampler self)) c of
            (self1, ok) \<Rightarrow> G1_loop self1 (if ok then pair_cnt + 1 else pair_cnt) rs3)
          = Inr (self', rs')"
      by (auto simp: bindE_eq_Inr)
    obtain self1 ok where
      t: "G1_try self (r1 * num_classes (s_sampler self))
                      (r2 * num_classes (s_sampler self)) c = (self1, ok)"
      by (cases "G1_try self (r1 * num_classes (s_sampler self))
                      (r2 * num_classes (s_sampler self)) c")
    with k have
      rest: "G1_loop self1 (if ok then pair_cnt + 1 else pair_cnt) rs3 = Inr (self', rs')"
      by simp
    from G1_try_cases [OF "1.prems"(2), of "r1 * num_classes (s_sampler self)"
        "r2 * num_classes (s_sampler self)" c] t
    consider (retry) "self1 = self" "ok = False"
      | (added) a b l where "self1 = self\<lparr>G1_img_paths := G1_img_paths self @ [(a, b)],
                   G1_labels := G1_labels self @ [(0, l)]\<rparr>" "ok = True"
      by auto
    then show ?thesis
    proof cases
      case retry
      have "self' = self1\<lparr>G1_img_paths := G1_img_paths self', G1_labels := G1_labels self'\<rparr> \<and>
         length (G1_img_paths self') =
           length (G1_img_paths self1) + (num_G1_pairs self1 - (if ok then pair_cnt + 1 else pair_cnt)) \<and>
         length (G1_labels self') =
           length (G1_labels self1) + (num_G1_pairs self1 - (if ok then pair_cnt + 1 else pair_cnt)) \<and>
         set (G1_labels self') \<subseteq> set (G1_labels self1) \<union> {l. fst l = 0}"
        using "1.prems"(2) retry
        by (intro "1.IH" [OF True d1 refl d2 refl d3 refl t [symmetric] rest]) simp
      with retry show ?thesis by simp
    next
      case added
      have "self' = self1\<lparr>G1_img_paths := G1_img_paths self', G1_labels := G1_labels self'\<rparr> \<and>
         length (G1_img_paths self') =
           length (G1_img_paths self1) + (num_G1_pairs self1 - (if ok then pair_cnt + 1 else pair_cnt)) \<and>
         length (G1_labels self') =
           length (G1_labels self1) + (num_G1_pairs self1 - (if ok then pair_cnt + 1 else pair_cnt)) \<and>
         set (G1_labels self') \<subseteq> set (G1_labels self1) \<union> {l. fst l = 0}"
        using "1.prems"(2) added
        by (intro "1.IH" [OF True d1 refl d2 refl d3 refl t [symmetric] rest]) simp
      with added True show ?thesis by auto
    qed
  qed
qed

lemma bindE_InrE:
  assumes "bindE m f = Inr y"
  obtains x where "m = Inr x" and "f x = Inr y"
  using assms by (auto simp: bindE_eq_Inr)

lemma bindE_pair_InrE:
  assumes "bindE m (\<lambda>(a, b). f a b) = Inr y"
  obtains a b where "m = Inr (a, b)" and "f a b = Inr y"
  using assms by (auto simp: bindE_eq_Inr)

lemma bindE_triple_InrE:
  assumes "bindE m (\<lambda>(a, b, c). f a b c) = Inr y"
  obtains a b c where "m = Inr (a, b, c)" and "f a b c = Inr y"
  using assms by (auto simp: bindE_eq_Inr)

lemma bindE_quad_InrE:
  assumes "bindE m (\<lambda>(a, b, c, d). f a b c d) = Inr y"
  obtains a b c d where "m = Inr (a, b, c, d)" and "f a b c d = Inr y"
  using assms by (auto simp: bindE_eq_Inr)

lemma if_Inl_InrE:
  assumes "(if c then Inl e else m) = Inr y"
  obtains "\<not> c" and "m = Inr y"
  using assms by (auto split: if_splits)

lemma DA_init_steps:
  assumes "DomainAdaptationPairDataset_init sdir tdir sh pf adv sds tds sub rs = Inr (pd, rs')"
  obtains sd td ss ts g1 g2 g3 g4 s_idxs ss' rs1 t_idxs ts' rs2 self1 rs3 self2 rs4
      self3 rs5 self4 rs6 where
    "(case (sds, tds) of
        (Some sd, Some td) \<Rightarrow> Inr (sd, td)
      | _ \<Rightarrow>
          if map fst (subdirs sdir) \<noteq> map fst (subdirs tdir)
          then Inl (AssertionError ''source and target classes not the same'')
          else bindE (ClassificationDataset sdir None) (\<lambda>sd.
               bindE (ClassificationDataset tdir None) (\<lambda>td. Inr (sd, td)))) = Inr (sd, td)" and
    "EvenSampler_init sd (- 1) = Inr ss" and
    "EvenSampler_init td sh = Inr ts" and
    "capacities ss ts = Inr (g1, g2, g3, g4)" and
    "\<not> pf = 0" and
    "EvenSampler_iter ss rs = Inr (s_idxs, ss', rs1)" and
    "EvenSampler_iter ts rs1 = Inr (t_idxs, ts', rs2)" and
    "G1_loop \<lparr> pd_shot = sh, adv_stage = adv,
                        source_dataset = sd, target_dataset = td,
                        s_sampler = ss', t_sampler = ts',
                        num_G1_pairs = min g1 (pf * (min (min g1 g2) (min g3 g4) div pf)),
                        num_G2_pairs = min g2 (pf * (min (min g1 g2) (min g3 g4) div pf)),
                        num_G3_pairs = min g3 (pf * (min (min g1 g2) (min g3 g4) div pf)),
                        num_G4_pairs = min g4 (pf * (min (min g1 g2) (min g3 g4) div pf)),
                        min_pairs = min (min g1 g2) (min g3 g4) div pf,
                        min_pairs_multiple = pf,
                        G1_img_paths = [], G1_labels = [],
                        G2_img_paths = [], G2_labels = [],
                        G3_img_paths = [], G3_labels = [],
                        G4_img_paths = [], G4_labels = [],
                        s_sampler_idxs = s_idxs, t_sampler_idxs = t_idxs,
                        num_s_partitions = int (length s_idxs div num_classes ss') - 1,
                        num_t_partitions = int (length t_idxs div num_classes ts') - 1,
                        group_imgs = [], group_labels = [], pd_subset = [] \<rparr> 0 rs2
         = Inr (self1, rs3)" and
    "G2_loop self1 (num_G2_pairs self1) rs3 = Inr (self2, rs4)" and
    "G3_loop self2 (num_G3_pairs self2) rs4 = Inr (self3, rs5)" and
    "G4_loop self3 (num_G2_pairs self3) rs5 = Inr (self4, rs6)" and
    "Inr (self4\<lparr>
                group_imgs :=
                  (if adv then [G2_img_paths self4, G4_img_paths self4]
                   else [G1_img_paths self4, G2_img_paths self4,
                         G3_img_paths self4, G4_img_paths self4]),
                group_labels :=
                  (if adv then [G2_labels self4, G4_labels self4]
                   else [G1_labels self4, G2_labels self4, G3_labels self4, G4_labels self4]),
                pd_subset :=
                  (case sub of
                     None \<Rightarrow> if adv then [0..<2 * (min (min g1 g2) (min g3 g4) div pf)]
                             else [0..<4 * (min (min g1 g2) (min g3 g4) div pf)]
                   | Some s \<Rightarrow> s)\<rparr>, rs6) = (Inr (pd, rs') :: error + pair_dataset \<times> rng)"
proof -
  show thesis
    using assms unfolding DomainAdaptationPairDataset_init_def Let_def
    apply (erule_tac bindE_pair_InrE)
    apply (erule_tac bindE_InrE)
    apply (erule_tac bindE_InrE)
    apply (erule_tac bindE_quad_InrE)
    apply (erule_tac if_Inl_InrE)
    apply (erule_tac bindE_triple_InrE)
    apply (erule_tac bindE_triple_InrE)
    apply (erule_tac bindE_pair_InrE)
    apply (erule_tac bindE_pair_InrE)
    apply (erule_tac bindE_pair_InrE)
    apply (erule_tac bindE_pair_InrE)
    apply (rule that)
    apply assumption+
    done
qed

lemma DA_init_Inr:
  assumes "DomainAdaptationPairDataset_init sdir tdir sh pf adv sds tds sub rs = Inr (pd, rs')"
  obtains ss ts g1 g2 g3 g4 s_idxs ss' rs1 t_idxs ts' rs2 self0 self1 rs3 self2 rs4 self3 rs5 self4
  where
    "(case (sds, tds) of
        (Some sd, Some td) \<Rightarrow> Inr (sd, td)
      | _ \<Rightarrow>
          if map fst (subdirs sdir) \<noteq> map fst (subdirs tdir)
          then Inl (AssertionError ''source and target classes not the same'')
          else bindE (ClassificationDataset sdir None) (\<lambda>sd.
               bindE (ClassificationDataset tdir None) (\<lambda>td. Inr (sd, td)))) = Inr (source_dataset pd, target_dataset pd)"
    "EvenSampler_init (source_dataset pd) (- 1) = Inr ss"
    "EvenSampler_init (target_dataset pd) sh = Inr ts"
    "capacities ss ts = Inr (g1, g2, g3, g4)"
    "pf \<noteq> 0"
    "EvenSampler_iter ss rs = Inr (s_idxs, ss', rs1)"
    "EvenSampler_iter ts rs1 = Inr (t_idxs, ts', rs2)"
    "source_dataset self0 = source_dataset pd" "target_dataset self0 = target_dataset pd"
    "s_sampler self0 = ss'" "t_sampler self0 = ts'" "adv_stage self0 = adv"
    "min_pairs self0 = min (min g1 g2) (min g3 g4) div pf"
    "num_G1_pairs self0 = min g1 (pf * min_pairs self0)"
    "num_G2_pairs self0 = min g2 (pf * min_pairs self0)"
    "num_G3_pairs self0 = min g3 (pf * min_pairs self0)"
    "num_G4_pairs self0 = min g4 (pf * min_pairs self0)"
    "G1_img_paths self0 = []" "G1_labels self0 = []" "G2_img_paths self0 = []" "G2_labels self0 = []"
    "G3_img_paths self0 = []" "G3_labels self0 = []" "G4_img_paths self0 = []" "G4_labels self0 = []"
    "G1_loop self0 0 rs2 = Inr (self1, rs3)"
    "G2_loop self1 (num_G2_pairs self1) rs3 = Inr (self2, rs4)"
    "G3_loop self2 (num_G3_pairs self2) rs4 = Inr (self3, rs5)"
    "G4_loop self3 (num_G2_pairs self3) rs5 = Inr (self4, rs')"
    "pd = self4\<lparr>
            group_imgs :=
              (if adv then [G2_img_paths self4, G4_img_paths self4]
               else [G1_img_paths self4, G2_img_paths self4,
                     G3_img_paths self4, G4_img_paths self4]),
            group_labels :=
              (if adv then [G2_labels self4, G4_labels self4]
               else [G1_labels self4, G2_labels self4, G3_labels self4, G4_labels self4]),
            pd_subset :=
              (case sub of
                 None \<Rightarrow> if adv then [0..<2 * min_pairs self0] else [0..<4 * min_pairs self0]
               | Some s \<Rightarrow> s)\<rparr>"
proof -
  from assms obtain sd td ss ts g1 g2 g3 g4 s_idxs ss' rs1 t_idxs ts' rs2 self1 rs3 self2 rs4
      self3 rs5 self4 rs6 where
    src: "(case (sds, tds) of
        (Some sd, Some td) \<Rightarrow> Inr (sd, td)
      | _ \<Rightarrow>
          if map fst (subdirs sdir) \<noteq> map fst (subdirs tdir)
          then Inl (AssertionError ''source and target classes not the same'')
          else bindE (ClassificationDataset sdir None) (\<lambda>sd.
               bindE (ClassificationDataset tdir None) (\<lambda>td. Inr (sd, td)))) = Inr (sd, td)" and
    ss: "EvenSampler_init sd (- 1) = Inr ss" and
    ts: "EvenSampler_init td sh = Inr ts" and
    cap: "capacities ss ts = Inr (g1, g2, g3, g4)" and
    pf: "\<not> pf = 0" and
    i1: "EvenSampler_iter ss rs = Inr (s_idxs, ss', rs1)" and
    i2: "EvenSampler_iter ts rs1 = Inr (t_idxs, ts', rs2)" and
    l1: "G1_loop \<lparr> pd_shot = sh, adv_stage = adv,
                        source_dataset = sd, target_dataset = td,
                        s_sampler = ss', t_sampler = ts',
                        num_G1_pairs = min g1 (pf * (min (min g1 g2) (min g3 g4) div pf)),
                        num_G2_pairs = min g2 (pf * (min (min g1 g2) (min g3 g4) div pf)),
                        num_G3_pairs = min g3 (pf * (min (min g1 g2) (min g3 g4) div pf)),
                        num_G4_pairs = min g4 (pf * (min (min g1 g2) (min g3 g4) div pf)),
                        min_pairs = min (min g1 g2) (min g3 g4) div pf,
                        min_pairs_multiple = pf,
                        G1_img_paths = [], G1_labels = [],
                        G2_img_paths = [], G2_labels = [],
                        G3_img_paths = [], G3_labels = [],
                        G4_img_paths = [], G4_labels = [],
                        s_sampler_idxs = s_idxs, t_sampler_idxs = t_idxs,
                        num_s_partitions = int (length s_idxs div num_classes ss') - 1,
                        num_t_partitions = int (length t_idxs div num_classes ts') - 1,
                        group_imgs = [], group_labels = [], pd_subset = [] \<rparr> 0 rs2
         = Inr (self1, rs3)" and
    l2: "G2_loop self1 (num_G2_pairs self1) rs3 = Inr (self2, rs4)" and
    l3: "G3_loop self2 (num_G3_pairs self2) rs4 = Inr (self3, rs5)" and
    l4': "G4_loop self3 (num_G2_pairs self3) rs5 = Inr (self4, rs6)" and
    fin: "Inr (self4\<lparr>
                group_imgs :=
                  (if adv then [G2_img_paths self4, G4_img_paths self4]
                   else [G1_img_paths self4, G2_img_paths self4,
                         G3_img_paths self4, G4_img_paths self4]),
                group_labels :=
                  (if adv then [G2_labels self4, G4_labels self4]
                   else [G1_labels self4, G2_labels self4, G3_labels self4, G4_labels self4]),
                pd_subset :=
                  (case sub of
                     None \<Rightarrow> if adv then [0..<2 * (min (min g1 g2) (min g3 g4) div pf)]
                             else [0..<4 * (min (min g1 g2) (min g3 g4) div pf)]
                   | Some s \<Rightarrow> s)\<rparr>, rs6) = (Inr (pd, rs') :: error + pair_dataset \<times> rng)"
    by (rule DA_init_steps)
  from fin have rs6: "rs6 = rs'" by simp
  note l4 = l4' [unfolded rs6]
  from fin have pd: "pd = self4\<lparr>
                group_imgs :=
                  (if adv then [G2_img_paths self4, G4_img_paths self4]
                   else [G1_img_paths self4, G2_img_paths self4,
                         G3_img_paths self4, G4_img_paths self4]),
                group_labels :=
                  (if adv then [G2_labels self4, G4_labels self4]
                   else [G1_labels self4, G2_labels self4, G3_labels self4, G4_labels self4]),
                pd_subset :=
                  (case sub of
                     None \<Rightarrow> if adv then [0..<2 * (min (min g1 g2) (min g3 g4) div pf)]
                             else [0..<4 * (min (min g1 g2) (min g3 g4) div pf)]
                   | Some s \<Rightarrow> s)\<rparr>"
    by simp
  define mp where "mp = min (min g1 g2) (min g3 g4) div pf"
  define self0 where "self0 = \<lparr> pd_shot = sh, adv_stage = adv,
                        source_dataset = sd, target_dataset = td,
                        s_sampler = ss', t_sampler = ts',
                        num_G1_pairs = min g1 (pf * mp),
                        num_G2_pairs = min g2 (pf * mp),
                        num_G3_pairs = min g3 (pf * mp),
                        num_G4_pairs = min g4 (pf * mp),
                        min_pairs = mp, min_pairs_multiple = pf,
                        G1_img_paths = [], G1_labels = [],
                        G2_img_paths = [], G2_labels = [],
                        G3_img_paths = [], G3_labels = [],
                        G4_img_paths = [], G4_labels = [],
                        s_sampler_idxs = s_idxs, t_sampler_idxs = t_idxs,
                        num_s_partitions = int (length s_idxs div num_classes ss') - 1,
                        num_t_partitions = int (length t_idxs div num_classes ts') - 1,
                        group_imgs = [], group_labels = [], pd_subset = [] \<rparr>"
  have wf: "\<forall>x\<in>set (subset sd). x < length (labels sd)"
    using EvenSampler_init_Inr(1) [OF ss] .
  have wf0: "\<forall>x\<in>set (subset (source_dataset self0)). x < length (labels (source_dataset self0))"
    using wf by (simp add: self0_def)
  note l1' = l1 [folded mp_def, folded self0_def]
  note a = G1_loop_Inr [OF l1' wf0]
  note b = G2_loop_Inr [OF l2]
  note c = G3_loop_Inr [OF l3]
  note d = G4_loop_Inr [OF l4]
  have e1: "source_dataset self1 = sd" "target_dataset self1 = td"
    by (subst conjunct1 [OF a], simp add: self0_def)+
  have e2: "source_dataset self2 = sd" "target_dataset self2 = td"
    by (subst conjunct1 [OF b], simp add: e1)+
  have e3: "source_dataset self3 = sd" "target_dataset self3 = td"
    by (subst conjunct1 [OF c], simp add: e2)+
  have e4: "source_dataset self4 = sd" "target_dataset self4 = td"
    by (subst conjunct1 [OF d], simp add: e3)+
  have sdpd: "source_dataset pd = sd" "target_dataset pd = td"
    by (simp_all add: pd e4)
  have f0: "source_dataset self0 = source_dataset pd" "target_dataset self0 = target_dataset pd"
    "s_sampler self0 = ss'" "t_sampler self0 = ts'" "adv_stage self0 = adv"
    "min_pairs self0 = min (min g1 g2) (min g3 g4) div pf"
    by (simp_all add: self0_def sdpd mp_def)
  have f1: "num_G1_pairs self0 = min g1 (pf * min_pairs self0)"
    "num_G2_pairs self0 = min g2 (pf * min_pairs self0)"
    "num_G3_pairs self0 = min g3 (pf * min_pairs self0)"
    "num_G4_pairs self0 = min g4 (pf * min_pairs self0)"
    by (simp_all add: self0_def)
  have f2: "G1_img_paths self0 = []" "G1_labels self0 = []" "G2_img_paths self0 = []"
    "G2_labels self0 = []" "G3_img_paths self0 = []" "G3_labels self0 = []"
    "G4_img_paths self0 = []" "G4_labels self0 = []"
    by (simp_all add: self0_def)
  have f3: "pd = self4\<lparr>
            group_imgs :=
              (if adv then [G2_img_paths self4, G4_img_paths self4]
               else [G1_img_paths self4, G2_img_paths self4,
                     G3_img_paths self4, G4_img_paths self4]),
            group_labels :=
              (if adv then [G2_labels self4, G4_labels self4]
               else [G1_labels self4, G2_labels self4, G3_labels self4, G4_labels self4]),
            pd_subset :=
              (case sub of
                 None \<Rightarrow> if adv then [0..<2 * min_pairs self0] else [0..<4 * min_pairs self0]
               | Some s \<Rightarrow> s)\<rparr>"
    unfolding f0(6) by (rule pd)
  have f4: "EvenSampler_init (source_dataset pd) (- 1) = Inr ss"
    "EvenSampler_init (target_dataset pd) sh = Inr ts"
    unfolding sdpd by (rule ss, rule ts)
  from pf have f5: "pf \<noteq> 0" .
  have f6: "(case (sds, tds) of
        (Some sd, Some td) \<Rightarrow> Inr (sd, td)
      | _ \<Rightarrow>
          if map fst (subdirs sdir) \<noteq> map fst (subdirs tdir)
          then Inl (AssertionError ''source and target classes not the same'')
          else bindE (ClassificationDataset sdir None) (\<lambda>sd.
               bindE (ClassificationDataset tdir None) (\<lambda>td. Inr (sd, td)))) = Inr (source_dataset pd, target_dataset pd)"
    unfolding sdpd by (rule src)
  show thesis
    by (rule that [OF f6 f4 cap f5 i1 i2 f0 f1 f2 l1' l2 l3 l4 f3])
qed

lemma EvenSampler_iter_same:
  assumes "EvenSampler_iter s rs = Inr (out, s', rs')"
  shows "s' = s\<lparr>class_idxs := class_idxs s'\<rparr>"
  using assms by (auto simp: EvenSampler_iter_def bindE_eq_Inr)

lemma capacities_class_idxs:
  "capacities (s\<lparr>class_idxs := a\<rparr>) (t\<lparr>class_idxs := b\<rparr>) = capacities s t"
  by (simp add: capacities_def)

lemma DA_init_fields:
  assumes "DomainAdaptationPairDataset_init sdir tdir sh pf adv sds tds sub rs = Inr (pd, rs')"
  obtains ss ts g1 g2 g3 g4 where
    "(case (sds, tds) of
        (Some sd, Some td) \<Rightarrow> Inr (sd, td)
      | _ \<Rightarrow>
          if map fst (subdirs sdir) \<noteq> map fst (subdirs tdir)
          then Inl (AssertionError ''source and target classes not the same'')
          else bindE (ClassificationDataset sdir None) (\<lambda>sd.
               bindE (ClassificationDataset tdir None) (\<lambda>td. Inr (sd, td)))) = Inr (source_dataset pd, target_dataset pd)"
    "EvenSampler_init (source_dataset pd) (- 1) = Inr ss"
    "EvenSampler_init (target_dataset pd) sh = Inr ts"
    "capacities ss ts = Inr (g1, g2, g3, g4)"
    "capacities (s_sampler pd) (t_sampler pd) = capacities ss ts"
    "0 < pf"
    "adv_stage pd = adv"
    "min_pairs pd = min (min g1 g2) (min g3 g4) div pf"
    "num_G1_pairs pd = min g1 (pf * min_pairs pd)"
    "num_G2_pairs pd = min g2 (pf * min_pairs pd)"
    "num_G3_pairs pd = min g3 (pf * min_pairs pd)"
    "num_G4_pairs pd = min g4 (pf * min_pairs pd)"
    "length (G1_img_paths pd) = num_G1_pairs pd" "length (G1_labels pd) = num_G1_pairs pd"
    "length (G2_img_paths pd) = num_G2_pairs pd" "length (G2_labels pd) = num_G2_pairs pd"
    "length (G3_img_paths pd) = num_G3_pairs pd" "length (G3_labels pd) = num_G3_pairs pd"
    "length (G4_img_paths pd) = num_G2_pairs pd" "length (G4_labels pd) = num_G2_pairs pd"
    "set (G1_labels pd) \<subseteq> {l. fst l = 0}"
    "set (G2_labels pd) \<subseteq> {l. fst l = (if adv then 0 else 1)}"
    "set (G3_labels pd) \<subseteq> {l. fst l = 2}"
    "set (G4_labels pd) \<subseteq> {l. fst l = (if adv then 2 else 3)}"
    "group_imgs pd = (if adv then [G2_img_paths pd, G4_img_paths pd]
                      else [G1_img_paths pd, G2_img_paths pd, G3_img_paths pd, G4_img_paths pd])"
    "group_labels pd = (if adv then [G2_labels pd, G4_labels pd]
                        else [G1_labels pd, G2_labels pd, G3_labels pd, G4_labels pd])"
    "pd_subset pd = (case sub of
                       None \<Rightarrow> if adv then [0..<2 * min_pairs pd] else [0..<4 * min_pairs pd]
                     | Some s \<Rightarrow> s)"
proof -
  from assms obtain ss ts g1 g2 g3 g4 s_idxs ss' rs1 t_idxs ts' rs2 self0 self1 rs3 self2 rs4
      self3 rs5 self4 where
    src: "(case (sds, tds) of
        (Some sd, Some td) \<Rightarrow> Inr (sd, td)
      | _ \<Rightarrow>
          if map fst (subdirs sdir) \<noteq> map fst (subdirs tdir)
          then Inl (AssertionError ''source and target classes not the same'')
          else bindE (ClassificationDataset sdir None) (\<lambda>sd.
               bindE (ClassificationDataset tdir None) (\<lambda>td. Inr (sd, td)))) = Inr (source_dataset pd, target_dataset pd)" and
    ss: "EvenSampler_init (source_dataset pd) (- 1) = Inr ss" and
    ts: "EvenSampler_init (target_dataset pd) sh = Inr ts" and
    cap: "capacities ss ts = Inr (g1, g2, g3, g4)" and
    pf: "pf \<noteq> 0" and
    i1: "EvenSampler_iter ss rs = Inr (s_idxs, ss', rs1)" and
    i2: "EvenSampler_iter ts rs1 = Inr (t_idxs, ts', rs2)" and
    f0: "source_dataset self0 = source_dataset pd" "target_dataset self0 = target_dataset pd"
      "s_sampler self0 = ss'" "t_sampler self0 = ts'" "adv_stage self0 = adv"
      "min_pairs self0 = min (min g1 g2) (min g3 g4) div pf" and
    f1: "num_G1_pairs self0 = min g1 (pf * min_pairs self0)"
      "num_G2_pairs self0 = min g2 (pf * min_pairs self0)"
      "num_G3_pairs self0 = min g3 (pf * min_pairs self0)"
      "num_G4_pairs self0 = min g4 (pf * min_pairs self0)" and
    f2: "G1_img_paths self0 = []" "G1_labels self0 = []" "G2_img_paths self0 = []"
      "G2_labels self0 = []" "G3_img_paths self0 = []" "G3_labels self0 = []"
      "G4_img_paths self0 = []" "G4_labels self0 = []" and
    l1: "G1_loop self0 0 rs2 = Inr (self1, rs3)" and
    l2: "G2_loop self1 (num_G2_pairs self1) rs3 = Inr (self2, rs4)" and
    l3: "G3_loop self2 (num_G3_pairs self2) rs4 = Inr (self3, rs5)" and
    l4: "G4_loop self3 (num_G2_pairs self3) rs5 = Inr (self4, rs')" and
    pd: "pd = self4\<lparr>
            group_imgs :=
              (if adv then [G2_img_paths self4, G4_img_paths self4]
               else [G1_img_paths self4, G2_img_paths self4,
                     G3_img_paths self4, G4_img_paths self4]),
            group_labels :=
              (if adv then [G2_labels self4, G4_labels self4]
               else [G1_labels self4, G2_labels self4, G3_labels self4, G4_labels self4]),
            pd_subset :=
              (case sub of
                 None \<Rightarrow> if adv then [0..<2 * min_pairs self0] else [0..<4 * min_pairs self0]
               | Some s \<Rightarrow> s)\<rparr>"
    by (rule DA_init_Inr)
  have wf0: "\<forall>x\<in>set (subset (source_dataset self0)). x < length (labels (source_dataset self0))"
    unfolding f0 using EvenSampler_init_Inr(1) [OF ss] .
  define p1 q1 p2 q2 p3 q3 p4 q4 where
    "p1 = G1_img_paths self1" and "q1 = G1_labels self1" and
    "p2 = G2_img_paths self2" and "q2 = G2_labels self2" and
    "p3 = G3_img_paths self3" and "q3 = G3_labels self3" and
    "p4 = G4_img_paths self4" and "q4 = G4_labels self4"
  note a = G1_loop_Inr [OF l1 wf0, folded p1_def q1_def]
  note b = G2_loop_Inr [OF l2, folded p2_def q2_def]
  note c = G3_loop_Inr [OF l3, folded p3_def q3_def]
  note d = G4_loop_Inr [OF l4, folded p4_def q4_def]
  have s1: "self1 = self0\<lparr>G1_img_paths := p1, G1_labels := q1\<rparr>" using a by blast
  have s2: "self2 = self1\<lparr>G2_img_paths := p2, G2_labels := q2\<rparr>" using b by blast
  have s3: "self3 = self2\<lparr>G3_img_paths := p3, G3_labels := q3\<rparr>" using c by blast
  have s4: "self4 = self3\<lparr>G4_img_paths := p4, G4_labels := q4\<rparr>" using d by blast
  have la: "length p1 = num_G1_pairs self0" "length q1 = num_G1_pairs self0"
    "set q1 \<subseteq> {l. fst l = 0}"
    using a by (simp_all add: f2)
  have lb: "length p2 = num_G2_pairs self0" "length q2 = num_G2_pairs self0"
    "set q2 \<subseteq> {l. fst l = (if adv then 0 else 1)}"
    using b by (simp_all add: s1 f2 f0)
  have lc: "length p3 = num_G3_pairs self0" "length q3 = num_G3_pairs self0"
    "set q3 \<subseteq> {l. fst l = 2}"
    using c by (simp_all add: s2 s1 f2)
  have ld: "length p4 = num_G2_pairs self0" "length q4 = num_G2_pairs self0"
    "set q4 \<subseteq> {l. fst l = (if adv then 2 else 3)}"
    using d by (simp_all add: s3 s2 s1 f2 f0)
  have pd': "pd = self0\<lparr>G1_img_paths := p1, G1_labels := q1, G2_img_paths := p2,
      G2_labels := q2, G3_img_paths := p3, G3_labels := q3, G4_img_paths := p4, G4_labels := q4,
      group_imgs := (if adv then [p2, p4] else [p1, p2, p3, p4]),
      group_labels := (if adv then [q2, q4] else [q1, q2, q3, q4]),
      pd_subset := (case sub of
                 None \<Rightarrow> if adv then [0..<2 * min_pairs self0] else [0..<4 * min_pairs self0]
               | Some s \<Rightarrow> s)\<rparr>"
    unfolding pd s4 s3 s2 s1 by simp
  have g: "G1_img_paths pd = p1" "G1_labels pd = q1" "G2_img_paths pd = p2" "G2_labels pd = q2"
    "G3_img_paths pd = p3" "G3_labels pd = q3" "G4_img_paths pd = p4" "G4_labels pd = q4"
    by (simp_all add: pd')
  have n: "num_G1_pairs pd = num_G1_pairs self0" "num_G2_pairs pd = num_G2_pairs self0"
    "num_G3_pairs pd = num_G3_pairs self0" "num_G4_pairs pd = num_G4_pairs self0"
    "min_pairs pd = min_pairs self0" "adv_stage pd = adv_stage self0"
    "s_sampler pd = ss'" "t_sampler pd = ts'"
    by (simp_all add: pd' f0)
  have caps: "capacities (s_sampler pd) (t_sampler pd) = capacities ss ts"
    unfolding n
    by (subst EvenSampler_iter_same [OF i1], subst EvenSampler_iter_same [OF i2])
       (rule capacities_class_idxs)
  show thesis
  proof (rule that [OF src ss ts cap caps])
    show "0 < pf" using pf by simp
    show "adv_stage pd = adv" by (simp add: n f0)
    show "min_pairs pd = min (min g1 g2) (min g3 g4) div pf" by (simp add: n f0)
    show "num_G1_pairs pd = min g1 (pf * min_pairs pd)" by (simp add: n f1)
    show "num_G2_pairs pd = min g2 (pf * min_pairs pd)" by (simp add: n f1)
    show "num_G3_pairs pd = min g3 (pf * min_pairs pd)" by (simp add: n f1)
    show "num_G4_pairs pd = min g4 (pf * min_pairs pd)" by (simp add: n f1)
    show "length (G1_img_paths pd) = num_G1_pairs pd" by (simp add: g n la)
    show "length (G1_labels pd) = num_G1_pairs pd" by (simp add: g n la)
    show "length (G2_img_paths pd) = num_G2_pairs pd" by (simp add: g n lb)
    show "length (G2_labels pd) = num_G2_pairs pd" by (simp add: g n lb)
    show "length (G3_img_paths pd) = num_G3_pairs pd" by (simp add: g n lc)
    show "length (G3_labels pd) = num_G3_pairs pd" by (simp add: g n lc)
    show "length (G4_img_paths pd) = num_G2_pairs pd" by (simp add: g n ld)
    show "length (G4_labels pd) = num_G2_pairs pd" by (simp add: g n ld)
    show "set (G1_labels pd) \<subseteq> {l. fst l = 0}" unfolding g by (rule la)
    show "set (G2_labels pd) \<subseteq> {l. fst l = (if adv then 0 else 1)}" unfolding g by (rule lb)
    show "set (G3_labels pd) \<subseteq> {l. fst l = 2}" unfolding g by (rule lc)
    show "set (G4_labels pd) \<subseteq> {l. fst l = (if adv then 2 else 3)}" unfolding g by (rule ld)
    show "group_imgs pd = (if adv then [G2_img_paths pd, G4_img_paths pd]
                      else [G1_img_paths pd, G2_img_paths pd, G3_img_paths pd, G4_img_paths pd])"
      unfolding g by (simp add: pd')
    show "group_labels pd = (if adv then [G2_labels pd, G4_labels pd]
                        else [G1_labels pd, G2_labels pd, G3_labels pd, G4_labels pd])"
      unfolding g by (simp add: pd')
    show "pd_subset pd = (case sub of
                       None \<Rightarrow> if adv then [0..<2 * min_pairs pd] else [0..<4 * min_pairs pd]
                     | Some s \<Rightarrow> s)"
      unfolding n by (simp add: pd')
  qed
qed

lemma min_pairs_multiple_le:
  fixes pf :: nat
  assumes "m \<le> g"
  shows "min g (pf * (m div pf)) = pf * (m div pf)"
proof -
  have "pf * (m div pf) \<le> m" by simp
  then have "pf * (m div pf) \<le> g" using assms by (rule le_trans)
  then show ?thesis by (rule min_absorb2)
qed

lemma DA_init_budget:
  assumes "DomainAdaptationPairDataset_init sdir tdir sh pf adv sds tds sub rs = Inr (pd, rs')"
  shows "\<exists>g1 g2 g3 g4.
           capacities (s_sampler pd) (t_sampler pd) = Inr (g1, g2, g3, g4) \<and>
           min_pairs pd = min (min g1 g2) (min g3 g4) div pf \<and>
           num_G1_pairs pd = min g1 (pf * min_pairs pd) \<and>
           num_G2_pairs pd = min g2 (pf * min_pairs pd) \<and>
           num_G3_pairs pd = min g3 (pf * min_pairs pd) \<and>
           num_G4_pairs pd = min g4 (pf * min_pairs pd)"
proof -
  from assms obtain ss ts g1 g2 g3 g4 where
    src: "(case (sds, tds) of
        (Some sd, Some td) \<Rightarrow> Inr (sd, td)
      | _ \<Rightarrow>
          if map fst (subdirs sdir) \<noteq> map fst (subdirs tdir)
          then Inl (AssertionError ''source and target classes not the same'')
          else bindE (ClassificationDataset sdir None) (\<lambda>sd.
               bindE (ClassificationDataset tdir None) (\<lambda>td. Inr (sd, td)))) = Inr (source_dataset pd, target_dataset pd)" and
    ss: "EvenSampler_init (source_dataset pd) (- 1) = Inr ss" and
    ts: "EvenSampler_init (target_dataset pd) sh = Inr ts" and
    cap: "capacities ss ts = Inr (g1, g2, g3, g4)" and
    caps: "capacities (s_sampler pd) (t_sampler pd) = capacities ss ts" and
    pf: "0 < pf" and
    adv: "adv_stage pd = adv" and
    mp: "min_pairs pd = min (min g1 g2) (min g3 g4) div pf" and
    n1: "num_G1_pairs pd = min g1 (pf * min_pairs pd)" and
    n2: "num_G2_pairs pd = min g2 (pf * min_pairs pd)" and
    n3: "num_G3_pairs pd = min g3 (pf * min_pairs pd)" and
    n4: "num_G4_pairs pd = min g4 (pf * min_pairs pd)" and
    l1a: "length (G1_img_paths pd) = num_G1_pairs pd" and
    l1b: "length (G1_labels pd) = num_G1_pairs pd" and
    l2a: "length (G2_img_paths pd) = num_G2_pairs pd" and
    l2b: "length (G2_labels pd) = num_G2_pairs pd" and
    l3a: "length (G3_img_paths pd) = num_G3_pairs pd" and
    l3b: "length (G3_labels pd) = num_G3_pairs pd" and
    l4a: "length (G4_img_paths pd) = num_G2_pairs pd" and
    l4b: "length (G4_labels pd) = num_G2_pairs pd" and
    t1: "set (G1_labels pd) \<subseteq> {l. fst l = 0}" and
    t2: "set (G2_labels pd) \<subseteq> {l. fst l = (if adv then 0 else 1)}" and
    t3: "set (G3_labels pd) \<subseteq> {l. fst l = 2}" and
    t4: "set (G4_labels pd) \<subseteq> {l. fst l = (if adv then 2 else 3)}" and
    gi: "group_imgs pd = (if adv then [G2_img_paths pd, G4_img_paths pd]
                      else [G1_img_paths pd, G2_img_paths pd, G3_img_paths pd, G4_img_paths pd])" and
    gl: "group_labels pd = (if adv then [G2_labels pd, G4_labels pd]
                        else [G1_labels pd, G2_labels pd, G3_labels pd, G4_labels pd])" and
    sub: "pd_subset pd = (case sub of
                       None \<Rightarrow> if adv then [0..<2 * min_pairs pd] else [0..<4 * min_pairs pd]
                     | Some s \<Rightarrow> s)"
    by (rule DA_init_fields)
  from cap caps have "capacities (s_sampler pd) (t_sampler pd) = Inr (g1, g2, g3, g4)"
    by simp
  with mp n1 n2 n3 n4 show ?thesis by blast
qed

lemma DA_init_counts:
  assumes "DomainAdaptationPairDataset_init sdir tdir sh pf adv sds tds sub rs = Inr (pd, rs')"
  shows "num_G1_pairs pd = pf * min_pairs pd" and "num_G2_pairs pd = pf * min_pairs pd"
    and "num_G3_pairs pd = pf * min_pairs pd" and "num_G4_pairs pd = pf * min_pairs pd"
    and "length (G1_img_paths pd) = pf * min_pairs pd"
    and "length (G1_labels pd) = pf * min_pairs pd"
    and "length (G2_img_paths pd) = pf * min_pairs pd"
    and "length (G2_labels pd) = pf * min_pairs pd"
    and "length (G3_img_paths pd) = pf * min_pairs pd"
    and "length (G3_labels pd) = pf * min_pairs pd"
    and "length (G4_img_paths pd) = pf * min_pairs pd"
    and "length (G4_labels pd) = pf * min_pairs pd"
proof -
  from assms obtain ss ts g1 g2 g3 g4 where
    src: "(case (sds, tds) of
        (Some sd, Some td) \<Rightarrow> Inr (sd, td)
      | _ \<Rightarrow>
          if map fst (subdirs sdir) \<noteq> map fst (subdirs tdir)
          then Inl (AssertionError ''source and target classes not the same'')
          else bindE (ClassificationDataset sdir None) (\<lambda>sd.
               bindE (ClassificationDataset tdir None) (\<lambda>td. Inr (sd, td)))) = Inr (source_dataset pd, target_dataset pd)" and
    ss: "EvenSampler_init (source_dataset pd) (- 1) = Inr ss" and
    ts: "EvenSampler_init (target_dataset pd) sh = Inr ts" and
    cap: "capacities ss ts = Inr (g1, g2, g3, g4)" and
    caps: "capacities (s_sampler pd) (t_sampler pd) = capacities ss ts" and
    pf: "0 < pf" and
    adv: "adv_stage pd = adv" and
    mp: "min_pairs pd = min (min g1 g2) (min g3 g4) div pf" and
    n1: "num_G1_pairs pd = min g1 (pf * min_pairs pd)" and
    n2: "num_G2_pairs pd = min g2 (pf * min_pairs pd)" and
    n3: "num_G3_pairs pd = min g3 (pf * min_pairs pd)" and
    n4: "num_G4_pairs pd = min g4 (pf * min_pairs pd)" and
    l1a: "length (G1_img_paths pd) = num_G1_pairs pd" and
    l1b: "length (G1_labels pd) = num_G1_pairs pd" and
    l2a: "length (G2_img_paths pd) = num_G2_pairs pd" and
    l2b: "length (G2_labels pd) = num_G2_pairs pd" and
    l3a: "length (G3_img_paths pd) = num_G3_pairs pd" and
    l3b: "length (G3_labels pd) = num_G3_pairs pd" and
    l4a: "length (G4_img_paths pd) = num_G2_pairs pd" and
    l4b: "length (G4_labels pd) = num_G2_pairs pd" and
    t1: "set (G1_labels pd) \<subseteq> {l. fst l = 0}" and
    t2: "set (G2_labels pd) \<subseteq> {l. fst l = (if adv then 0 else 1)}" and
    t3: "set (G3_labels pd) \<subseteq> {l. fst l = 2}" and
    t4: "set (G4_labels pd) \<subseteq> {l. fst l = (if adv then 2 else 3)}" and
    gi: "group_imgs pd = (if adv then [G2_img_paths pd, G4_img_paths pd]
                      else [G1_img_paths pd, G2_img_paths pd, G3_img_paths pd, G4_img_paths pd])" and
    gl: "group_labels pd = (if adv then [G2_labels pd, G4_labels pd]
                        else [G1_labels pd, G2_labels pd, G3_labels pd, G4_labels pd])" and
    sub: "pd_subset pd = (case sub of
                       None \<Rightarrow> if adv then [0..<2 * min_pairs pd] else [0..<4 * min_pairs pd]
                     | Some s \<Rightarrow> s)"
    by (rule DA_init_fields)
  have m1: "min g1 (pf * min_pairs pd) = pf * min_pairs pd"
    unfolding mp by (rule min_pairs_multiple_le) simp
  have m2: "min g2 (pf * min_pairs pd) = pf * min_pairs pd"
    unfolding mp by (rule min_pairs_multiple_le) simp
  have m3: "min g3 (pf * min_pairs pd) = pf * min_pairs pd"
    unfolding mp by (rule min_pairs_multiple_le) simp
  have m4: "min g4 (pf * min_pairs pd) = pf * min_pairs pd"
    unfolding mp by (rule min_pairs_multiple_le) simp
  show "num_G1_pairs pd = pf * min_pairs pd" using n1 m1 by simp
  show "num_G2_pairs pd = pf * min_pairs pd" using n2 m2 by simp
  show "num_G3_pairs pd = pf * min_pairs pd" using n3 m3 by simp
  show "num_G4_pairs pd = pf * min_pairs pd" using n4 m4 by simp
  show "length (G1_img_paths pd) = pf * min_pairs pd" using l1a n1 m1 by simp
  show "length (G1_labels pd) = pf * min_pairs pd" using l1b n1 m1 by simp
  show "length (G2_img_paths pd) = pf * min_pairs pd" using l2a n2 m2 by simp
  show "length (G2_labels pd) = pf * min_pairs pd" using l2b n2 m2 by simp
  show "length (G3_img_paths pd) = pf * min_pairs pd" using l3a n3 m3 by simp
  show "length (G3_labels pd) = pf * min_pairs pd" using l3b n3 m3 by simp
  show "length (G4_img_paths pd) = pf * min_pairs pd" using l4a n2 m2 by simp
  show "length (G4_labels pd) = pf * min_pairs pd" using l4b n2 m2 by simp
qed

lemma DA_init_served:
  assumes "DomainAdaptationPairDataset_init sdir tdir sh pf adv sds tds sub rs = Inr (pd, rs')"
  shows "adv_stage pd = adv"
    and "group_imgs pd = (if adv then [G2_img_paths pd, G4_img_paths pd]
                      else [G1_img_paths pd, G2_img_paths pd, G3_img_paths pd, G4_img_paths pd])"
    and "group_labels pd = (if adv then [G2_labels pd, G4_labels pd]
                        else [G1_labels pd, G2_labels pd, G3_labels pd, G4_labels pd])"
    and "pd_subset pd = (case sub of
                       None \<Rightarrow> if adv then [0..<2 * min_pairs pd] else [0..<4 * min_pairs pd]
                     | Some s \<Rightarrow> s)"
    and "\<forall>l\<in>set (G1_labels pd). fst l = 0"
    and "\<forall>l\<in>set (G2_labels pd). fst l = (if adv then 0 else 1)"
    and "\<forall>l\<in>set (G3_labels pd). fst l = 2"
    and "\<forall>l\<in>set (G4_labels pd). fst l = (if adv then 2 else 3)"
proof -
  from assms obtain ss ts g1 g2 g3 g4 where
    src: "(case (sds, tds) of
        (Some sd, Some td) \<Rightarrow> Inr (sd, td)
      | _ \<Rightarrow>
          if map fst (subdirs sdir) \<noteq> map fst (subdirs tdir)
          then Inl (AssertionError ''source and target classes not the same'')
          else bindE (ClassificationDataset sdir None) (\<lambda>sd.
               bindE (ClassificationDataset tdir None) (\<lambda>td. Inr (sd, td)))) = Inr (source_dataset pd, target_dataset pd)" and
    ss: "EvenSampler_init (source_dataset pd) (- 1) = Inr ss" and
    ts: "EvenSampler_init (target_dataset pd) sh = Inr ts" and
    cap: "capacities ss ts = Inr (g1, g2, g3, g4)" and
    caps: "capacities (s_sampler pd) (t_sampler pd) = capacities ss ts" and
    pf: "0 < pf" and
    adv: "adv_stage pd = adv" and
    mp: "min_pairs pd = min (min g1 g2) (min g3 g4) div pf" and
    n1: "num_G1_pairs pd = min g1 (pf * min_pairs pd)" and
    n2: "num_G2_pairs pd = min g2 (pf * min_pairs pd)" and
    n3: "num_G3_pairs pd = min g3 (pf * min_pairs pd)" and
    n4: "num_G4_pairs pd = min g4 (pf * min_pairs pd)" and
    l1a: "length (G1_img_paths pd) = num_G1_pairs pd" and
    l1b: "length (G1_labels pd) = num_G1_pairs pd" and
    l2a: "length (G2_img_paths pd) = num_G2_pairs pd" and
    l2b: "length (G2_labels pd) = num_G2_pairs pd" and
    l3a: "length (G3_img_paths pd) = num_G3_pairs pd" and
    l3b: "length (G3_labels pd) = num_G3_pairs pd" and
    l4a: "length (G4_img_paths pd) = num_G2_pairs pd" and
    l4b: "length (G4_labels pd) = num_G2_pairs pd" and
    t1: "set (G1_labels pd) \<subseteq> {l. fst l = 0}" and
    t2: "set (G2_labels pd) \<subseteq> {l. fst l = (if adv then 0 else 1)}" and
    t3: "set (G3_labels pd) \<subseteq> {l. fst l = 2}" and
    t4: "set (G4_labels pd) \<subseteq> {l. fst l = (if adv then 2 else 3)}" and
    gi: "group_imgs pd = (if adv then [G2_img_paths pd, G4_img_paths pd]
                      else [G1_img_paths pd, G2_img_paths pd, G3_img_paths pd, G4_img_paths pd])" and
    gl: "group_labels pd = (if adv then [G2_labels pd, G4_labels pd]
                        else [G1_labels pd, G2_labels pd, G3_labels pd, G4_labels pd])" and
    sub: "pd_subset pd = (case sub of
                       None \<Rightarrow> if adv then [0..<2 * min_pairs pd] else [0..<4 * min_pairs pd]
                     | Some s \<Rightarrow> s)"
    by (rule DA_init_fields)
  show "adv_stage pd = adv" by (rule adv)
  show "group_imgs pd = (if adv then [G2_img_paths pd, G4_img_paths pd]
                      else [G1_img_paths pd, G2_img_paths pd, G3_img_paths pd, G4_img_paths pd])"
    by (rule gi)
  show "group_labels pd = (if adv then [G2_labels pd, G4_labels pd]
                        else [G1_labels pd, G2_labels pd, G3_labels pd, G4_labels pd])"
    by (rule gl)
  show "pd_subset pd = (case sub of
                       None \<Rightarrow> if adv then [0..<2 * min_pairs pd] else [0..<4 * min_pairs pd]
                     | Some s \<Rightarrow> s)"
    by (rule sub)
  show "\<forall>l\<in>set (G1_labels pd). fst l = 0" using t1 by blast
  show "\<forall>l\<in>set (G2_labels pd). fst l = (if adv then 0 else 1)" using t2 by blast
  show "\<forall>l\<in>set (G3_labels pd). fst l = 2" using t3 by blast
  show "\<forall>l\<in>set (G4_labels pd). fst l = (if adv then 2 else 3)" using t4 by blast
qed

lemma DA_init_sources:
  assumes "DomainAdaptationPairDataset_init sdir tdir sh pf adv sds tds sub rs = Inr (pd, rs')"
  shows "(case (sds, tds) of
        (Some sd, Some td) \<Rightarrow> Inr (sd, td)
      | _ \<Rightarrow>
          if map fst (subdirs sdir) \<noteq> map fst (subdirs tdir)
          then Inl (AssertionError ''source and target classes not the same'')
          else bindE (ClassificationDataset sdir None) (\<lambda>sd.
               bindE (ClassificationDataset tdir None) (\<lambda>td. Inr (sd, td)))) = Inr (source_dataset pd, target_dataset pd)"
    and "\<exists>ss ts. EvenSampler_init (source_dataset pd) (- 1) = Inr ss \<and>
           EvenSampler_init (target_dataset pd) sh = Inr ts \<and>
           capacities (s_sampler pd) (t_sampler pd) = capacities ss ts \<and>
           (\<exists>g. capacities ss ts = Inr g)"
proof -
  from assms obtain ss ts g1 g2 g3 g4 where
    src: "(case (sds, tds) of
        (Some sd, Some td) \<Rightarrow> Inr (sd, td)
      | _ \<Rightarrow>
          if map fst (subdirs sdir) \<noteq> map fst (subdirs tdir)
          then Inl (AssertionError ''source and target classes not the same'')
          else bindE (ClassificationDataset sdir None) (\<lambda>sd.
               bindE (ClassificationDataset tdir None) (\<lambda>td. Inr (sd, td)))) = Inr (source_dataset pd, target_dataset pd)" and
    ss: "EvenSampler_init (source_dataset pd) (- 1) = Inr ss" and
    ts: "EvenSampler_init (target_dataset pd) sh = Inr ts" and
    cap: "capacities ss ts = Inr (g1, g2, g3, g4)" and
    caps: "capacities (s_sampler pd) (t_sampler pd) = capacities ss ts" and
    pf: "0 < pf" and
    adv: "adv_stage pd = adv" and
    mp: "min_pairs pd = min (min g1 g2) (min g3 g4) div pf" and
    n1: "num_G1_pairs pd = min g1 (pf * min_pairs pd)" and
    n2: "num_G2_pairs pd = min g2 (pf * min_pairs pd)" and
    n3: "num_G3_pairs pd = min g3 (pf * min_pairs pd)" and
    n4: "num_G4_pairs pd = min g4 (pf * min_pairs pd)" and
    l1a: "length (G1_img_paths pd) = num_G1_pairs pd" and
    l1b: "length (G1_labels pd) = num_G1_pairs pd" and
    l2a: "length (G2_img_paths pd) = num_G2_pairs pd" and
    l2b: "length (G2_labels pd) = num_G2_pairs pd" and
    l3a: "length (G3_img_paths pd) = num_G3_pairs pd" and
    l3b: "length (G3_labels pd) = num_G3_pairs pd" and
    l4a: "length (G4_img_paths pd) = num_G2_pairs pd" and
    l4b: "length (G4_labels pd) = num_G2_pairs pd" and
    t1: "set (G1_labels pd) \<subseteq> {l. fst l = 0}" and
    t2: "set (G2_labels pd) \<subseteq> {l. fst l = (if adv then 0 else 1)}" and
    t3: "set (G3_labels pd) \<subseteq> {l. fst l = 2}" and
    t4: "set (G4_labels pd) \<subseteq> {l. fst l = (if adv then 2 else 3)}" and
    gi: "group_imgs pd = (if adv then [G2_img_paths pd, G4_img_paths pd]
                      else [G1_img_paths pd, G2_img_paths pd, G3_img_paths pd, G4_img_paths pd])" and
    gl: "group_labels pd = (if adv then [G2_labels pd, G4_labels pd]
                        else [G1_labels pd, G2_labels pd, G3_labels pd, G4_labels pd])" and
    sub: "pd_subset pd = (case sub of
                       None \<Rightarrow> if adv then [0..<2 * min_pairs pd] else [0..<4 * min_pairs pd]
                     | Some s \<Rightarrow> s)"
    by (rule DA_init_fields)
  show "(case (sds, tds) of
        (Some sd, Some td) \<Rightarrow> Inr (sd, td)
      | _ \<Rightarrow>
          if map fst (subdirs sdir) \<noteq> map fst (subdirs tdir)
          then Inl (AssertionError ''source and target classes not the same'')
          else bindE (ClassificationDataset sdir None) (\<lambda>sd.
               bindE (ClassificationDataset tdir None) (\<lambda>td. Inr (sd, td)))) = Inr (source_dataset pd, target_dataset pd)"
    by (rule src)
  from ss ts cap caps show "\<exists>ss ts. EvenSampler_init (source_dataset pd) (- 1) = Inr ss \<and>
           EvenSampler_init (target_dataset pd) sh = Inr ts \<and>
           capacities (s_sampler pd) (t_sampler pd) = capacities ss ts \<and>
           (\<exists>g. capacities ss ts = Inr g)"
    by blast
qed

lemma run22_normal:
  "case DomainAdaptationPairDataset_init no_dir no_dir 2 1 False (Some src22) (Some tgt22)
          None draws22 of
     Inl e \<Rightarrow> False
   | Inr (pd, rs') \<Rightarrow>
       rs' = [] \<and> capacities (s_sampler pd) (t_sampler pd) = Inr (2, 8, 6, 8) \<and>
       min_pairs pd = 2 \<and>
       G1_img_paths pd = [(''s/a/0'', ''s/a/0''), (''s/b/1'', ''s/b/1'')] \<and>
       G1_labels pd = [(0, 0, 0), (0, 1, 1)] \<and>
       G2_img_paths pd = [(''s/a/0'', ''t/a/0''), (''s/b/1'', ''t/b/1'')] \<and>
       G2_labels pd = [(1, 0, 0), (1, 1, 1)] \<and>
       G3_img_paths pd = [(''s/a/0'', ''s/b/0''), (''s/b/1'', ''s/a/1'')] \<and>
       G3_labels pd = [(2, 0, 1), (2, 1, 0)] \<and>
       G4_img_paths pd = [(''s/a/0'', ''t/b/0''), (''s/b/1'', ''t/a/1'')] \<and>
       G4_labels pd = [(3, 0, 1), (3, 1, 0)] \<and>
       pair_dataset_len pd = 8"
  by code_simp

lemma run22_factor2:
  "case DomainAdaptationPairDataset_init no_dir no_dir 2 2 False (Some src22) (Some tgt22)
          None draws22 of
     Inl e \<Rightarrow> False
   | Inr (pd, rs') \<Rightarrow>
       rs' = [] \<and> min_pairs pd = 1 \<and> map length (group_imgs pd) = [2, 2, 2, 2] \<and>
       pair_dataset_len pd = 4"
  by code_simp

lemma run22_adversarial:
  "case DomainAdaptationPairDataset_init no_dir no_dir 2 1 True (Some src22) (Some tgt22)
          None draws22 of
     Inl e \<Rightarrow> False
   | Inr (pd, rs') \<Rightarrow>
       rs' = [] \<and> min_pairs pd = 2 \<and>
       G1_img_paths pd = [(''s/a/0'', ''s/a/0''), (''s/b/1'', ''s/b/1'')] \<and>
       G3_img_paths pd = [(''s/a/0'', ''s/b/0''), (''s/b/1'', ''s/a/1'')] \<and>
       group_imgs pd = [[(''s/a/0'', ''t/a/0''), (''s/b/1'', ''t/b/1'')],
                        [(''s/a/0'', ''t/b/0''), (''s/b/1'', ''t/a/1'')]] \<and>
       group_labels pd = [[(0, 0, 0), (0, 1, 1)], [(2, 0, 1), (2, 1, 0)]] \<and>
       pair_dataset_len pd = 4"
  by code_simp

lemma length_nonzero_eq: "length (nonzero_eq ls c) = count_list ls c"
proof -
  have "map ((!) ls) (nonzero_eq ls c) = filter (\<lambda>x. x = c) (map ((!) ls) [0..<length ls])"
    by (simp add: nonzero_eq_def filter_map comp_def)
  also have "\<dots> = filter (\<lambda>x. x = c) ls" by (simp add: map_nth)
  finally have "length (nonzero_eq ls c) = length (filter (\<lambda>x. x = c) ls)"
    by (metis length_map)
  also have "\<dots> = count_list ls c"
    by (induction ls) simp_all
  finally show ?thesis .
qed

lemma length_slice_to:
  "length (slice_to xs n) = (if 0 \<le> n then min (length xs) (nat n) else length xs - nat (- n))"
  by (simp add: slice_to_def)

lemma mapE_Inr_all:
  assumes "\<forall>x\<in>set xs. f x = Inr (g x)"
  shows "mapE f xs = Inr (map g xs)"
  using assms by (induction xs) simp_all

lemma mapE_Inl_same:
  assumes "\<forall>x\<in>set xs. f x = Inl e \<or> (\<exists>y. f x = Inr y)" and "\<exists>x\<in>set xs. f x = Inl e"
  shows "mapE f xs = Inl e"
  using assms
proof (induction xs)
  case Nil
  then show ?case by simp
next
  case (Cons x xs)
  show ?case
  proof (cases "f x")
    case (Inl e')
    with Cons.prems(1) show ?thesis by auto
  next
    case (Inr y)
    with Cons.prems have "\<exists>x\<in>set xs. f x = Inl e" by auto
    moreover from Cons.prems(1) have "\<forall>x\<in>set xs. f x = Inl e \<or> (\<exists>y. f x = Inr y)" by simp
    ultimately have "mapE f xs = Inl e" by (rule Cons.IH [rotated])
    with Inr show ?thesis by simp
  qed
qed

lemma sum_list_upt: "sum_list (map f [0..<n]) = (\<Sum>c<n. f c)"
  by (simp add: interv_sum_list_conv_sum_set_nat atLeast0LessThan)

lemma sum_list_upt_except:
  "sum_list (map f (filter (\<lambda>j. i \<noteq> j) [0..<n])) = (\<Sum>c\<in>{..<n} - {i}. f c)"
proof -
  have "distinct (filter (\<lambda>j. i \<noteq> j) [0..<n])" by simp
  then have "sum_list (map f (filter (\<lambda>j. i \<noteq> j) [0..<n]))
             = sum f (set (filter (\<lambda>j. i \<noteq> j) [0..<n]))"
    by (rule sum_list_distinct_conv_sum_set)
  also have "set (filter (\<lambda>j. i \<noteq> j) [0..<n]) = {..<n} - {i}" by auto
  finally show ?thesis .
qed

lemma EvenSampler_init_lens:
  assumes "EvenSampler_init ds sh = Inr s"
  shows "num_classes s = n_classes ds" and "sam_labels s = sampled_labels ds"
    and "length (class_idx_lens s) = n_classes ds"
    and "\<forall>c<n_classes ds. class_idx_lens s ! c =
           (if sh = - 1 then count_list (sampled_labels ds) c
            else if 0 \<le> sh then min (count_list (sampled_labels ds) c) (nat sh)
            else count_list (sampled_labels ds) c - nat (- sh))"
proof -
  note f = EvenSampler_init_Inr [OF assms]
  show l: "sam_labels s = sampled_labels ds" by (simp add: f(2) sampled_labels_def)
  show n: "num_classes s = n_classes ds"
    unfolding f(3) l n_classes_def by (rule length_remdups_card_conv)
  have len: "length (class_idxs s) = num_classes s" by (subst f(5)) simp
  show "length (class_idx_lens s) = n_classes ds"
    unfolding f(6) using len n by simp
  show "\<forall>c<n_classes ds. class_idx_lens s ! c =
           (if sh = - 1 then count_list (sampled_labels ds) c
            else if 0 \<le> sh then min (count_list (sampled_labels ds) c) (nat sh)
            else count_list (sampled_labels ds) c - nat (- sh))"
  proof (intro allI impI)
    fix c assume "c < n_classes ds"
    then have c: "c < num_classes s" by (simp add: n)
    then have "class_idxs s ! c = (if sh \<noteq> - 1 then slice_to (nonzero_eq (sam_labels s) c) sh
                              else nonzero_eq (sam_labels s) c)"
      by (subst f(5)) simp
    moreover have "class_idx_lens s ! c = length (class_idxs s ! c)"
      unfolding f(6) using c len by simp
    ultimately show "class_idx_lens s ! c =
           (if sh = - 1 then count_list (sampled_labels ds) c
            else if 0 \<le> sh then min (count_list (sampled_labels ds) c) (nat sh)
            else count_list (sampled_labels ds) c - nat (- sh))"
      by (simp add: length_slice_to length_nonzero_eq l)
  qed
qed

lemma capacities_formulas:
  assumes ss: "EvenSampler_init sd (- 1) = Inr ss" and ts: "EvenSampler_init td sh = Inr ts"
  shows "capacities ss ts =
           (if n_classes td \<le> n_classes sd
            then Inr (SS_same_class sd, ST_same_class sd td sh, SS_diff_class sd,
                      ST_diff_class sd td sh)
            else Inl IndexError)"
proof -
  note s = EvenSampler_init_lens [OF ss]
  note t = EvenSampler_init_lens [OF ts]
  define ns nt where "ns = n_classes sd" and "nt = n_classes td"
  define Ls Lt where "Ls = class_idx_lens ss" and "Lt = class_idx_lens ts"
  have Ls: "length Ls = ns" "\<And>c. c < ns \<Longrightarrow> Ls ! c = source_count sd c"
    using s(3,4) by (simp_all add: Ls_def ns_def source_count_def)
  have Lt: "length Lt = nt" "\<And>c. c < nt \<Longrightarrow> Lt ! c = target_count td sh c"
    using t(3,4) by (simp_all add: Lt_def nt_def target_count_def Let_def)
  have g1: "mapE (\<lambda>i. bindE (index Ls i) (\<lambda>n. Inr (n choose 2))) [0..<ns]
            = Inr (map (\<lambda>c. source_count sd c choose 2) [0..<ns])"
    by (rule mapE_Inr_all) (simp add: index_def Ls)
  have g4: "mapE (\<lambda>i. bindE (mapE (\<lambda>j. bindE (index Ls j) (\<lambda>a.
                                          bindE (index Lt i) (\<lambda>b. Inr (a * b))))
                                (filter (\<lambda>j. i \<noteq> j) [0..<ns]))
                          (\<lambda>xs. Inr (sum_list xs))) [0..<nt]
            = Inr (map (\<lambda>i. \<Sum>c\<in>{..<ns} - {i}. source_count sd c * target_count td sh i)
                     [0..<nt])"
  proof (rule mapE_Inr_all, intro ballI)
    fix i assume "i \<in> set [0..<nt]"
    then have i: "i < nt" by simp
    have "mapE (\<lambda>j. bindE (index Ls j) (\<lambda>a. bindE (index Lt i) (\<lambda>b. Inr (a * b))))
            (filter (\<lambda>j. i \<noteq> j) [0..<ns])
          = Inr (map (\<lambda>c. source_count sd c * target_count td sh i)
                   (filter (\<lambda>j. i \<noteq> j) [0..<ns]))"
      by (rule mapE_Inr_all) (use i in \<open>simp add: index_def Ls Lt\<close>)
    then show "bindE (mapE (\<lambda>j. bindE (index Ls j) (\<lambda>a.
                    bindE (index Lt i) (\<lambda>b. Inr (a * b))))
                 (filter (\<lambda>j. i \<noteq> j) [0..<ns])) (\<lambda>xs. Inr (sum_list xs))
          = Inr (\<Sum>c\<in>{..<ns} - {i}. source_count sd c * target_count td sh i)"
      by (simp add: sum_list_upt_except)
  qed
  have cap: "capacities ss ts =
     bindE (mapE (\<lambda>i. bindE (index Ls i) (\<lambda>n. Inr (n choose 2))) [0..<ns]) (\<lambda>g1.
     bindE (mapE (\<lambda>i. bindE (index Ls i) (\<lambda>a.
                        bindE (index Lt i) (\<lambda>b. Inr (a * b)))) [0..<nt]) (\<lambda>g2.
     bindE (mapE (\<lambda>i. bindE (mapE (\<lambda>j. bindE (index Ls j) (\<lambda>a.
                                          bindE (index Lt i) (\<lambda>b. Inr (a * b))))
                                (filter (\<lambda>j. i \<noteq> j) [0..<ns]))
                          (\<lambda>xs. Inr (sum_list xs))) [0..<nt]) (\<lambda>g4.
       Inr (sum_list g1, sum_list g2, length (subset sd) choose 2, sum_list g4))))"
    unfolding capacities_def Ls_def Lt_def ns_def nt_def s(1) t(1) s(2)
    by (simp add: sampled_labels_def)
  show ?thesis
  proof (cases "nt \<le> ns")
    case True
    have g2: "mapE (\<lambda>i. bindE (index Ls i) (\<lambda>a. bindE (index Lt i) (\<lambda>b. Inr (a * b))))
                [0..<nt]
              = Inr (map (\<lambda>c. source_count sd c * target_count td sh c) [0..<nt])"
      by (rule mapE_Inr_all) (use True in \<open>simp add: index_def Ls Lt\<close>)
    show ?thesis
      unfolding cap g1 g2 g4 using True
      by (simp add: sum_list_upt SS_same_class_def ST_same_class_def SS_diff_class_def
            ST_diff_class_def ns_def [symmetric] nt_def [symmetric])
  next
    case False
    have g2: "mapE (\<lambda>i. bindE (index Ls i) (\<lambda>a. bindE (index Lt i) (\<lambda>b. Inr (a * b))))
                [0..<nt] = Inl IndexError"
    proof (rule mapE_Inl_same)
      show "\<forall>x\<in>set [0..<nt].
         bindE (index Ls x) (\<lambda>a. bindE (index Lt x) (\<lambda>b. Inr (a * b))) = Inl IndexError \<or>
         (\<exists>y. bindE (index Ls x) (\<lambda>a. bindE (index Lt x) (\<lambda>b. Inr (a * b))) = Inr y)"
        by (simp add: index_def Ls Lt)
      from False have "ns \<in> set [0..<nt]" by simp
      moreover have "bindE (index Ls ns) (\<lambda>a. bindE (index Lt ns) (\<lambda>b. Inr (a * b)))
                     = Inl IndexError"
        by (simp add: index_def Ls)
      ultimately show "\<exists>x\<in>set [0..<nt].
         bindE (index Ls x) (\<lambda>a. bindE (index Lt x) (\<lambda>b. Inr (a * b))) = Inl IndexError"
        by blast
    qed
    show ?thesis
      unfolding cap g1 g2 using False by (simp add: ns_def nt_def)
  qed
qed

section \<open>The claims\<close>

text \<open>
  C1. For a sampler built by \<^verbatim>\<open>EvenSampler\<close> and any number of earlier iterations, every
  call of \<^verbatim>\<open>__iter__\<close> with any outcome of its shuffles returns a sequence of length
  \<open>num_classes * min_len\<close>; its block number \<open>b\<close> of \<open>num_classes\<close> consecutive indices
  carries the labels \<open>0, 1, ..., num_classes - 1\<close> in this order, so each block holds exactly
  one index of every class and the class order is the same in all blocks. Every emitted
  index is a position of the sampler's label list. A call never raises (the only other
  answer of the embedding is \<open>NotARun\<close>, for a list that is no outcome of the shuffles), and
  some outcome exists. In the scenario of 10 cats and 4 dogs the sequence has length 8.
\<close>

theorem EvenSampler_iter_balanced:
  assumes init: "EvenSampler_init ds sh = Inr s0" and reach: "iterated s0 s"
  shows "(\<exists>rs r. EvenSampler_iter s rs = Inr r) \<and>
         (case EvenSampler_iter s rs of
            Inl e \<Rightarrow> e = NotARun
          | Inr (out, s', rs') \<Rightarrow>
              length out = num_classes s0 * min_len s0 \<and>
              (\<forall>b<min_len s0.
                 map (\<lambda>i. sam_labels s0 ! i) (take (num_classes s0) (drop (b * num_classes s0) out))
                 = [0..<num_classes s0]) \<and>
              (\<forall>i\<in>set out. i < length (sam_labels s0)))"
proof -
  from init have inv0: "bucket_inv s0" by (rule EvenSampler_init_inv)
  from iterated_inv [OF reach inv0] have inv: "bucket_inv s" and
    same: "num_classes s = num_classes s0" "min_len s = min_len s0" "sam_labels s = sam_labels s0"
    by simp_all
  have ex: "\<exists>rs r. EvenSampler_iter s rs = Inr r"
    using EvenSampler_iter_identity_draw [OF inv] by blast
  have "case EvenSampler_iter s rs of
            Inl e \<Rightarrow> e = NotARun
          | Inr (out, s', rs') \<Rightarrow>
              length out = num_classes s0 * min_len s0 \<and>
              (\<forall>b<min_len s0.
                 map (\<lambda>i. sam_labels s0 ! i) (take (num_classes s0) (drop (b * num_classes s0) out))
                 = [0..<num_classes s0]) \<and>
              (\<forall>i\<in>set out. i < length (sam_labels s0))"
  proof (cases "EvenSampler_iter s rs")
    case (Inl e)
    with inv show ?thesis by (simp add: EvenSampler_iter_error)
  next
    case (Inr r)
    obtain out s' rs' where r: "r = (out, s', rs')" by (cases r)
    note it = Inr [unfolded r]
    note st = EvenSampler_iter_step [OF inv it]
    from EvenSampler_iter_inv [OF inv it] have inv': "bucket_inv s'" .
    define n where "n = num_classes s0"
    define m where "m = min_len s0"
    define cs where "cs = class_idxs s'"
    define row where "row = (\<lambda>j. map (\<lambda>t. t ! j) cs)"
    have len_cs: "length cs = n" using st(2) same by (simp add: cs_def n_def)
    have len_b: "length (cs ! c) = m" if "c < n" for c
      using st(3) that same by (simp add: cs_def n_def m_def)
    have own: "i < length (sam_labels s0) \<and> sam_labels s0 ! i = c"
      if "c < n" and "i \<in> set (cs ! c)" for c i
    proof -
      from st(1) have "num_classes s' = num_classes s" "sam_labels s' = sam_labels s"
        by (metis sampler.select_convs sampler.surjective sampler.update_convs(4))+
      with inv' that same show ?thesis
        by (simp add: bucket_inv_def cs_def n_def)
    qed
    have out: "out = concat (map row [0..<m])"
      using st(4) same by (simp add: row_def cs_def m_def)
    have rows: "\<forall>xs\<in>set (map row [0..<m]). length xs = n"
      by (simp add: row_def len_cs)
    have l: "length out = n * m"
      unfolding out using length_concat_rows [OF rows] by simp
    have blk: "map (\<lambda>i. sam_labels s0 ! i) (take n (drop (b * n) out)) = [0..<n]"
      if "b < m" for b
    proof -
      have "take n (drop (b * n) out) = row b"
        unfolding out using concat_block [OF rows, of b] that by simp
      moreover have "map (\<lambda>i. sam_labels s0 ! i) (row b) = [0..<n]"
      proof (rule nth_equalityI)
        show "length (map (\<lambda>i. sam_labels s0 ! i) (row b)) = length [0..<n]"
          by (simp add: row_def len_cs)
      next
        fix c assume "c < length (map (\<lambda>i. sam_labels s0 ! i) (row b))"
        then have c: "c < n" by (simp add: row_def len_cs)
        with that len_b have "cs ! c ! b \<in> set (cs ! c)" by simp
        with own c have "sam_labels s0 ! (cs ! c ! b) = c" by blast
        with c show "map (\<lambda>i. sam_labels s0 ! i) (row b) ! c = [0..<n] ! c"
          by (simp add: row_def len_cs)
      qed
      ultimately show ?thesis by simp
    qed
    have rng: "i < length (sam_labels s0)" if "i \<in> set out" for i
    proof -
      from that obtain j t where "j < m" "t \<in> set cs" "i = t ! j"
        unfolding out by (auto simp: row_def)
      then obtain c where c: "c < n" "t = cs ! c"
        using len_cs by (auto simp: in_set_conv_nth)
      with \<open>j < m\<close> len_b have "cs ! c ! j \<in> set (cs ! c)" by simp
      with own c \<open>i = t ! j\<close> show ?thesis by blast
    qed
    from l blk rng show ?thesis
      unfolding Inr r by (simp add: n_def m_def)
  qed
  with ex show ?thesis by blast
qed

theorem EvenSampler_iter_balanced_witness:
  "EvenSampler_init catdog (- 1) \<noteq> Inl ValueError \<and>
   (\<exists>s0 s' rs'. EvenSampler_init catdog (- 1) = Inr s0 \<and> num_classes s0 = 2 \<and> min_len s0 = 4 \<and>
      EvenSampler_iter s0 ([9, 8, 7, 6, 5, 4, 3, 2, 1, 0] @ [3, 2, 1, 0])
        = Inr ([9, 13, 8, 12, 7, 11, 6, 10], s', rs') \<and>
      length [9, 13, 8, 12, 7, 11, 6, 10 :: nat] = num_classes s0 * min_len s0 \<and>
      map (\<lambda>i. sam_labels s0 ! i) (take (num_classes s0) (drop (3 * num_classes s0)
          [9, 13, 8, 12, 7, 11, 6, 10])) = [0..<num_classes s0])"
proof -
  define s0 where "s0 = \<lparr> sam_labels = replicate 10 0 @ replicate 4 (1::nat), shot = - 1,
     num_classes = 2, class_idxs = [[0, 1, 2, 3, 4, 5, 6, 7, 8, 9], [10, 11, 12, 13]],
     remain_class_idxs = [], class_idx_lens = [10, 4], max_len = 10, min_len = 4 \<rparr>"
  have i: "EvenSampler_init catdog (- 1) = Inr s0"
    unfolding s0_def by code_simp
  have r: "EvenSampler_iter s0 ([9, 8, 7, 6, 5, 4, 3, 2, 1, 0] @ [3, 2, 1, 0])
        = Inr ([9, 13, 8, 12, 7, 11, 6, 10], s0\<lparr>class_idxs := [[9, 8, 7, 6], [13, 12, 11, 10]]\<rparr>, [])"
    unfolding s0_def by code_simp
  have n: "num_classes s0 = 2" "min_len s0 = 4" by (simp_all add: s0_def)
  from EvenSampler_iter_balanced [OF i iterated.fresh, of "[9, 8, 7, 6, 5, 4, 3, 2, 1, 0] @ [3, 2, 1, 0]"]
  have l: "length [9, 13, 8, 12, 7, 11, 6, 10 :: nat] = num_classes s0 * min_len s0"
    and b: "\<forall>b<min_len s0. map (\<lambda>i. sam_labels s0 ! i) (take (num_classes s0)
          (drop (b * num_classes s0) [9, 13, 8, 12, 7, 11, 6, 10])) = [0..<num_classes s0]"
    unfolding r by simp_all
  have "(3::nat) < min_len s0" using n by simp
  with b have "map (\<lambda>i. sam_labels s0 ! i) (take (num_classes s0) (drop (3 * num_classes s0)
          [9, 13, 8, 12, 7, 11, 6, 10])) = [0..<num_classes s0]"
    by blast
  with i r n l show ?thesis by auto
qed

text \<open>
  C7 (as amended). \<^verbatim>\<open>EvenSampler.__init__\<close> has no check for an empty class and no
  \<^verbatim>\<open>EmptyClassError\<close>. It raises only \<^verbatim>\<open>IndexError\<close>, when an index of the subset
  is out of range, or \<^verbatim>\<open>ValueError\<close> (\<^verbatim>\<open>max\<close> of an empty list), when the subset is
  empty. Otherwise it returns a sampler; a class id below \<open>num_classes\<close> that no sample
  carries gets an empty bucket and \<open>min_len = 0\<close>.
\<close>

theorem EvenSampler_init_outcome:
  "case EvenSampler_init ds sh of
     Inl e \<Rightarrow> (e = IndexError \<and> (\<exists>x\<in>set (subset ds). length (labels ds) \<le> x)) \<or>
              (e = ValueError \<and> subset ds = [])
   | Inr s \<Rightarrow> subset ds \<noteq> [] \<and>
              (\<forall>c<num_classes s. nonzero_eq (sam_labels s) c = [] \<longrightarrow>
                 class_idxs s ! c = [] \<and> min_len s = 0)"
proof (cases "EvenSampler_init ds sh")
  case (Inl e)
  show ?thesis
  proof (cases "mapE (index (labels ds)) (subset ds)")
    case l: (Inl e')
    then have "e' = IndexError" by (rule mapE_index_Inl)
    moreover from l have "\<not> (\<forall>x\<in>set (subset ds). x < length (labels ds))"
      using mapE_index_Inr [of "labels ds" "subset ds"] by (metis Inl_Inr_False)
    ultimately show ?thesis using Inl l
      by (auto simp: EvenSampler_init_def not_less)
  next
    case r: (Inr ls)
    then have ls: "ls = map ((!) (labels ds)) (subset ds)"
      by (simp add: mapE_index_Inr)
    from Inl r have "length (remdups ls) = 0 \<and> e = ValueError"
      by (auto simp: EvenSampler_init_def Let_def split: if_splits)
    with ls Inl show ?thesis by simp
  qed
next
  case (Inr s)
  note f = EvenSampler_init_Inr [OF Inr]
  from f(3,4) have "sam_labels s \<noteq> []" by auto
  with f(2) have ne: "subset ds \<noteq> []" by auto
  have "class_idxs s ! c = [] \<and> min_len s = 0"
    if c: "c < num_classes s" and e: "nonzero_eq (sam_labels s) c = []" for c
  proof -
    have nth: "class_idxs s ! c = []"
      using c e by (subst f(5)) (simp add: slice_to_Nil)
    have "length (class_idxs s) = num_classes s"
      by (subst f(5)) simp
    with c nth have "0 \<in> set (class_idx_lens s)"
      unfolding f(6) by (metis length_0_conv length_map nth_map nth_mem)
    then have "Min (set (class_idx_lens s)) = 0"
      by (metis List.finite_set Min_le le_zero_eq)
    with nth show ?thesis by (simp add: f(7))
  qed
  with ne show ?thesis unfolding Inr by simp
qed

theorem EvenSampler_init_outcome_witness:
  "\<exists>s. EvenSampler_init gap_ds (- 1) = Inr s \<and> (1::nat) < num_classes s \<and>
       nonzero_eq (sam_labels s) 1 = [] \<and> class_idxs s ! 1 = [] \<and> min_len s = 0"
proof -
  define s where "s = \<lparr> sam_labels = [0, 2 :: nat], shot = - 1, num_classes = 2,
     class_idxs = [[0], []], remain_class_idxs = [], class_idx_lens = [1, 0],
     max_len = 1, min_len = 0 \<rparr>"
  have i: "EvenSampler_init gap_ds (- 1) = Inr s"
    unfolding s_def by code_simp
  have c: "(1::nat) < num_classes s" and e: "nonzero_eq (sam_labels s) 1 = []"
    by (simp_all add: s_def nonzero_eq_def)
  from EvenSampler_init_outcome [of gap_ds "- 1"] c e
  have "class_idxs s ! 1 = [] \<and> min_len s = 0"
    unfolding i by simp
  with i c e show ?thesis by blast
qed

text \<open>
  C7 as stated fails: over three classes with a subset that holds no sample of class 1, the
  bucket of class id 1 is empty and construction returns a sampler with \<open>min_len = 0\<close>.
\<close>

theorem EvenSampler_init_empty_bucket_counterexample:
  "EvenSampler_init gap_ds (- 1) =
     Inr \<lparr> sam_labels = [0, 2], shot = - 1, num_classes = 2,
           class_idxs = [[0], []], remain_class_idxs = [], class_idx_lens = [1, 0],
           max_len = 1, min_len = 0 \<rparr>"
  by code_simp

text \<open>
  C4 (as amended). A call of \<^verbatim>\<open>__iter__\<close> shuffles every bucket as the sampler holds it at
  that moment, cuts it to \<open>min_len\<close> and stores the cut bucket back in the sampler. For two
  successive calls: the two sequences have the same length; the bucket of a class after the
  first call is the cut of a permutation of the bucket it had before; after the second call
  it is a permutation of the bucket the first call retained; each sequence interleaves the
  buckets its call stored. So the second sequence holds exactly the indices of the first.
\<close>

theorem EvenSampler_iter_twice:
  assumes init: "EvenSampler_init ds sh = Inr s0" and reach: "iterated s0 s"
    and it1: "EvenSampler_iter s rs1 = Inr (out1, s1, rs1')"
    and it2: "EvenSampler_iter s1 rs2 = Inr (out2, s2, rs2')"
  shows "length out2 = length out1 \<and> set out2 = set out1 \<and>
         stack_flat (class_idxs s1) = Inr out1 \<and> stack_flat (class_idxs s2) = Inr out2 \<and>
         (\<forall>c<num_classes s0.
            (\<exists>p. mset p = mset (class_idxs s ! c) \<and> class_idxs s1 ! c = take (min_len s0) p) \<and>
            mset (class_idxs s2 ! c) = mset (class_idxs s1 ! c))"
proof -
  from init have inv0: "bucket_inv s0" by (rule EvenSampler_init_inv)
  from iterated_inv [OF reach inv0] have inv: "bucket_inv s" and
    same: "num_classes s = num_classes s0" "min_len s = min_len s0"
    by simp_all
  from EvenSampler_iter_inv [OF inv it1] have inv1: "bucket_inv s1" .
  note a = EvenSampler_iter_step [OF inv it1]
  from a(1) have same1: "num_classes s1 = num_classes s" "min_len s1 = min_len s"
    by (metis sampler.select_convs sampler.surjective sampler.update_convs(4))+
  note b = EvenSampler_iter_step [OF inv1 it2]
  define n where "n = num_classes s0"
  define m where "m = min_len s0"
  have len1: "length (class_idxs s1) = n" and len2: "length (class_idxs s2) = n"
    using a(2) b(2) same same1 by (simp_all add: n_def)
  have u1: "\<forall>t\<in>set (class_idxs s1). length t = m"
    using a(3) len1 same by (auto simp: in_set_conv_nth n_def m_def)
  have u2: "\<forall>t\<in>set (class_idxs s2). length t = m"
    using b(3) len2 same same1 by (auto simp: in_set_conv_nth n_def m_def)
  have o1: "out1 = concat (map (\<lambda>j. map (\<lambda>t. t ! j) (class_idxs s1)) [0..<m])"
    using a(4) same by (simp add: m_def)
  have o2: "out2 = concat (map (\<lambda>j. map (\<lambda>t. t ! j) (class_idxs s2)) [0..<m])"
    using b(4) same same1 by (simp add: m_def)
  have ne: "class_idxs s1 \<noteq> []" "class_idxs s2 \<noteq> []"
    using len1 len2 inv0 by (auto simp: bucket_inv_def n_def)
  have perm: "mset (class_idxs s2 ! c) = mset (class_idxs s1 ! c)" if "c < n" for c
  proof -
    from b(3) that same same1 obtain p where
      p: "mset p = mset (class_idxs s1 ! c)" "class_idxs s2 ! c = take m p"
      by (auto simp: n_def m_def)
    from p(1) have "length p = length (class_idxs s1 ! c)" by (rule mset_eq_length)
    also have "\<dots> = m" using a(3) that same by (simp add: n_def m_def)
    finally show ?thesis using p by simp
  qed
  have first: "\<exists>p. mset p = mset (class_idxs s ! c) \<and> class_idxs s1 ! c = take m p"
    if "c < n" for c
    using a(3) that same by (simp add: n_def m_def)
  have "length out1 = n * m" "length out2 = n * m"
    unfolding o1 o2 using len1 len2
    by (simp_all add: length_concat_rows [where n = n])
  then have l: "length out2 = length out1" by simp
  have "\<Union> (set ` set (class_idxs s2)) = \<Union> (set ` set (class_idxs s1))"
  proof -
    have "set (class_idxs s2 ! c) = set (class_idxs s1 ! c)" if "c < n" for c
      using perm [OF that] by (rule mset_eq_setD)
    then have "map set (class_idxs s2) = map set (class_idxs s1)"
      using len1 len2 by (intro nth_equalityI) simp_all
    then have "set (map set (class_idxs s2)) = set (map set (class_idxs s1))" by simp
    then show ?thesis by simp
  qed
  then have s: "set out2 = set out1"
    unfolding o1 o2 set_stack_rows [OF u1] set_stack_rows [OF u2] .
  have st1: "stack_flat (class_idxs s1) = Inr out1"
    unfolding o1 using ne(1) u1 by (rule stack_flat_uniform)
  have st2: "stack_flat (class_idxs s2) = Inr out2"
    unfolding o2 using ne(2) u2 by (rule stack_flat_uniform)
  from l s st1 st2 perm first show ?thesis
    by (simp add: n_def m_def)
qed

theorem EvenSampler_iter_twice_witness:
  "\<exists>s0 s1. EvenSampler_init skew_ds (- 1) = Inr s0 \<and>
     EvenSampler_iter s0 [2, 0, 1, 0] = Inr ([2, 3], s1, []) \<and>
     EvenSampler_iter s1 [0, 0] = Inr ([2, 3], s1, []) \<and>
     length [2, 3 :: nat] = length [2, 3 :: nat] \<and>
     stack_flat (class_idxs s1) = Inr [2, 3] \<and>
     mset (class_idxs s1 ! 0) = mset (class_idxs s1 ! 0)"
proof -
  define s0 where "s0 = \<lparr> sam_labels = [0, 0, 0, 1 :: nat], shot = - 1, num_classes = 2,
     class_idxs = [[0, 1, 2], [3]], remain_class_idxs = [], class_idx_lens = [3, 1],
     max_len = 3, min_len = 1 \<rparr>"
  define s1 where "s1 = s0\<lparr>class_idxs := [[2], [3]]\<rparr>"
  have i: "EvenSampler_init skew_ds (- 1) = Inr s0"
    unfolding s0_def by code_simp
  have a: "EvenSampler_iter s0 [2, 0, 1, 0] = Inr ([2, 3], s1, [])"
    unfolding s1_def s0_def by code_simp
  have b: "EvenSampler_iter s1 [0, 0] = Inr ([2, 3], s1, [])"
    unfolding s1_def s0_def by code_simp
  from EvenSampler_iter_twice [OF i iterated.fresh a b]
  have "length [2, 3 :: nat] = length [2, 3 :: nat] \<and>
     stack_flat (class_idxs s1) = Inr [2, 3] \<and>
     mset (class_idxs s1 ! 0) = mset (class_idxs s1 ! 0)"
    by simp
  with i a b show ?thesis by blast
qed

text \<open>
  C4 as stated fails. With three samples of class 0 and one of class 1, a first call that
  draws index 2 for class 0 leaves the buckets \<open>[[2], [3]]\<close> in the sampler. The second call
  shuffles these: a permutation of one element is its only legal draw, a permutation of the
  three original indices is not one, and no draw makes it emit index 0 of class 0's
  original bucket.
\<close>

theorem EvenSampler_iter_twice_counterexample:
  "EvenSampler_init skew_ds (- 1) =
     Inr \<lparr> sam_labels = [0, 0, 0, 1], shot = - 1, num_classes = 2,
           class_idxs = [[0, 1, 2], [3]], remain_class_idxs = [], class_idx_lens = [3, 1],
           max_len = 3, min_len = 1 \<rparr> \<and>
   EvenSampler_iter
       \<lparr> sam_labels = [0, 0, 0, 1], shot = - 1, num_classes = 2,
         class_idxs = [[0, 1, 2], [3]], remain_class_idxs = [], class_idx_lens = [3, 1],
         max_len = 3, min_len = 1 \<rparr> [2, 0, 1, 0] =
     Inr ([2, 3],
          \<lparr> sam_labels = [0, 0, 0, 1], shot = - 1, num_classes = 2,
            class_idxs = [[2], [3]], remain_class_idxs = [], class_idx_lens = [3, 1],
            max_len = 3, min_len = 1 \<rparr>, []) \<and>
   EvenSampler_iter
       \<lparr> sam_labels = [0, 0, 0, 1], shot = - 1, num_classes = 2,
         class_idxs = [[2], [3]], remain_class_idxs = [], class_idx_lens = [3, 1],
         max_len = 3, min_len = 1 \<rparr> [0, 0] =
     Inr ([2, 3],
          \<lparr> sam_labels = [0, 0, 0, 1], shot = - 1, num_classes = 2,
            class_idxs = [[2], [3]], remain_class_idxs = [], class_idx_lens = [3, 1],
            max_len = 3, min_len = 1 \<rparr>, []) \<and>
   EvenSampler_iter
       \<lparr> sam_labels = [0, 0, 0, 1], shot = - 1, num_classes = 2,
         class_idxs = [[2], [3]], remain_class_idxs = [], class_idx_lens = [3, 1],
         max_len = 3, min_len = 1 \<rparr> [0, 1, 2, 0] = Inl NotARun \<and>
   \<not> (\<exists>rs s' rs'. EvenSampler_iter
       \<lparr> sam_labels = [0, 0, 0, 1], shot = - 1, num_classes = 2,
         class_idxs = [[2], [3]], remain_class_idxs = [], class_idx_lens = [3, 1],
         max_len = 3, min_len = 1 \<rparr> rs = Inr ([0, 3], s', rs'))"
proof -
  have "\<not> (\<exists>rs s' rs'. EvenSampler_iter
       \<lparr> sam_labels = [0, 0, 0, 1], shot = - 1, num_classes = 2,
         class_idxs = [[2], [3]], remain_class_idxs = [], class_idx_lens = [3, 1],
         max_len = 3, min_len = 1 \<rparr> rs = Inr ([0, 3], s', rs'))"
  proof
    assume "\<exists>rs s' rs'. EvenSampler_iter
       \<lparr> sam_labels = [0, 0, 0, 1], shot = - 1, num_classes = 2,
         class_idxs = [[2], [3]], remain_class_idxs = [], class_idx_lens = [3, 1],
         max_len = 3, min_len = 1 \<rparr> rs = Inr ([0, 3], s', rs')"
    then obtain rs s' rs' cs' where
      sh: "shuffle_buckets 1 [[2], [3]] rs = Inr (cs', rs')" and
      st: "stack_flat cs' = Inr [0, 3]"
      by (auto simp: EvenSampler_iter_def bindE_eq_Inr simp del: shuffle_buckets.simps)
    from shuffle_buckets_Inr [OF sh] obtain p q where
      "mset p = mset [2::nat]" "cs' = [take 1 p, q]"
      by (auto simp: list_all2_Cons1)
    then have "cs' = [[2], q]" by (auto simp: mset_single_iff_right)
    with st show False
      by (auto simp: stack_flat_def split: if_splits)
  qed
  moreover have "EvenSampler_init skew_ds (- 1) =
     Inr \<lparr> sam_labels = [0, 0, 0, 1], shot = - 1, num_classes = 2,
           class_idxs = [[0, 1, 2], [3]], remain_class_idxs = [], class_idx_lens = [3, 1],
           max_len = 3, min_len = 1 \<rparr>"
    by code_simp
  moreover have "EvenSampler_iter
       \<lparr> sam_labels = [0, 0, 0, 1], shot = - 1, num_classes = 2,
         class_idxs = [[0, 1, 2], [3]], remain_class_idxs = [], class_idx_lens = [3, 1],
         max_len = 3, min_len = 1 \<rparr> [2, 0, 1, 0] =
     Inr ([2, 3],
          \<lparr> sam_labels = [0, 0, 0, 1], shot = - 1, num_classes = 2,
            class_idxs = [[2], [3]], remain_class_idxs = [], class_idx_lens = [3, 1],
            max_len = 3, min_len = 1 \<rparr>, [])"
    by code_simp
  moreover have "EvenSampler_iter
       \<lparr> sam_labels = [0, 0, 0, 1], shot = - 1, num_classes = 2,
         class_idxs = [[2], [3]], remain_class_idxs = [], class_idx_lens = [3, 1],
         max_len = 3, min_len = 1 \<rparr> [0, 0] =
     Inr ([2, 3],
          \<lparr> sam_labels = [0, 0, 0, 1], shot = - 1, num_classes = 2,
            class_idxs = [[2], [3]], remain_class_idxs = [], class_idx_lens = [3, 1],
            max_len = 3, min_len = 1 \<rparr>, [])"
    by code_simp
  moreover have "EvenSampler_iter
       \<lparr> sam_labels = [0, 0, 0, 1], shot = - 1, num_classes = 2,
         class_idxs = [[2], [3]], remain_class_idxs = [], class_idx_lens = [3, 1],
         max_len = 3, min_len = 1 \<rparr> [0, 1, 2, 0] = Inl NotARun"
    by code_simp
  ultimately show ?thesis by blast
qed

text \<open>
  C2. For every constructed pair dataset, with the four capacities \<open>g1, g2, g3, g4\<close> computed
  from its two samplers: \<open>min_pairs\<close> (the shared budget) is their minimum integer-divided by
  \<open>pair_factor\<close>, and the number of pairs materialized for each group (image pairs and label
  entries alike) is the minimum of the group's capacity and \<open>pair_factor * min_pairs\<close>. The
  loop of G4 is bounded by \<^verbatim>\<open>self.num_G2_pairs\<close> in the source; the two bounds coincide,
  since \<open>pair_factor * min_pairs\<close> never exceeds any capacity. \<open>pair_factor\<close> is a positive
  natural number here (zero raises \<^verbatim>\<open>ZeroDivisionError\<close>).
\<close>

theorem pair_budget:
  assumes "DomainAdaptationPairDataset_init sdir tdir sh pf adv sds tds sub rs = Inr (pd, rs')"
  shows "\<exists>g1 g2 g3 g4.
           capacities (s_sampler pd) (t_sampler pd) = Inr (g1, g2, g3, g4) \<and>
           min_pairs pd = min (min g1 g2) (min g3 g4) div pf \<and>
           length (G1_img_paths pd) = min g1 (pf * min_pairs pd) \<and>
           length (G1_labels pd) = min g1 (pf * min_pairs pd) \<and>
           length (G2_img_paths pd) = min g2 (pf * min_pairs pd) \<and>
           length (G2_labels pd) = min g2 (pf * min_pairs pd) \<and>
           length (G3_img_paths pd) = min g3 (pf * min_pairs pd) \<and>
           length (G3_labels pd) = min g3 (pf * min_pairs pd) \<and>
           length (G4_img_paths pd) = min g4 (pf * min_pairs pd) \<and>
           length (G4_labels pd) = min g4 (pf * min_pairs pd)"
proof -
  from DA_init_budget [OF assms] obtain g1 g2 g3 g4 where
    cap: "capacities (s_sampler pd) (t_sampler pd) = Inr (g1, g2, g3, g4)" and
    mp: "min_pairs pd = min (min g1 g2) (min g3 g4) div pf" and
    n: "num_G1_pairs pd = min g1 (pf * min_pairs pd)"
       "num_G2_pairs pd = min g2 (pf * min_pairs pd)"
       "num_G3_pairs pd = min g3 (pf * min_pairs pd)"
       "num_G4_pairs pd = min g4 (pf * min_pairs pd)"
    by blast
  note c = DA_init_counts [OF assms]
  have "length (G1_img_paths pd) = min g1 (pf * min_pairs pd)"
    "length (G1_labels pd) = min g1 (pf * min_pairs pd)"
    "length (G2_img_paths pd) = min g2 (pf * min_pairs pd)"
    "length (G2_labels pd) = min g2 (pf * min_pairs pd)"
    "length (G3_img_paths pd) = min g3 (pf * min_pairs pd)"
    "length (G3_labels pd) = min g3 (pf * min_pairs pd)"
    "length (G4_img_paths pd) = min g4 (pf * min_pairs pd)"
    "length (G4_labels pd) = min g4 (pf * min_pairs pd)"
    unfolding n [symmetric] c by (rule refl)+
  with cap mp show ?thesis by blast
qed

theorem pair_budget_witness:
  "\<exists>pd. DomainAdaptationPairDataset_init no_dir no_dir 2 1 False (Some src22) (Some tgt22)
            None draws22 = Inr (pd, []) \<and>
     capacities (s_sampler pd) (t_sampler pd) = Inr (2, 8, 6, 8) \<and>
     min_pairs pd = 2 \<and>
     length (G1_img_paths pd) = 2 \<and> length (G2_img_paths pd) = 2 \<and>
     length (G3_img_paths pd) = 2 \<and> length (G4_img_paths pd) = 2"
proof -
  from run22_normal obtain pd where
    run: "DomainAdaptationPairDataset_init no_dir no_dir 2 1 False (Some src22) (Some tgt22)
            None draws22 = Inr (pd, [])" and
    cap: "capacities (s_sampler pd) (t_sampler pd) = Inr (2, 8, 6, 8)"
    by (auto split: sum.splits)
  from pair_budget [OF run] cap have
    "min_pairs pd = 2 \<and>
     length (G1_img_paths pd) = 2 \<and> length (G2_img_paths pd) = 2 \<and>
     length (G3_img_paths pd) = 2 \<and> length (G4_img_paths pd) = 2"
    by auto
  with run cap show ?thesis by blast
qed

text \<open>
  C5 (as amended). For a pair dataset constructed without an explicit subset, \<open>length()\<close> is
  \<open>4 * min_pairs\<close> in normal mode and \<open>2 * min_pairs\<close> in adversarial mode, with four
  respectively two served groups. Every served group holds \<open>pair_factor * min_pairs\<close> pairs,
  so the sizes of the served groups sum to \<open>pair_factor * length()\<close>: \<open>length()\<close> is their sum
  when \<open>pair_factor = 1\<close> (or the budget is zero), and smaller otherwise.
\<close>

theorem pair_dataset_length:
  assumes "DomainAdaptationPairDataset_init sdir tdir sh pf adv sds tds None rs = Inr (pd, rs')"
  shows "pair_dataset_len pd = (if adv then 2 else 4) * min_pairs pd \<and>
         length (group_imgs pd) = (if adv then 2 else 4) \<and>
         (\<forall>g\<in>set (group_imgs pd). length g = pf * min_pairs pd) \<and>
         sum_list (map length (group_imgs pd)) = pf * pair_dataset_len pd"
proof -
  note c = DA_init_counts [OF assms]
  note g = DA_init_served(2) [OF assms]
  from DA_init_served(4) [OF assms]
  have len: "pair_dataset_len pd = (if adv then 2 else 4) * min_pairs pd"
    by (simp add: pair_dataset_len_def)
  have "length (group_imgs pd) = (if adv then 2 else 4)"
    unfolding g by simp
  moreover have "\<forall>g\<in>set (group_imgs pd). length g = pf * min_pairs pd"
    unfolding g using c by simp
  moreover have "sum_list (map length (group_imgs pd)) = pf * pair_dataset_len pd"
    unfolding g len using c by simp
  ultimately show ?thesis using len by blast
qed

theorem pair_dataset_length_witness:
  "\<exists>pd. DomainAdaptationPairDataset_init no_dir no_dir 2 1 True (Some src22) (Some tgt22)
            None draws22 = Inr (pd, []) \<and>
     min_pairs pd = 2 \<and> pair_dataset_len pd = 2 * min_pairs pd \<and>
     sum_list (map length (group_imgs pd)) = 1 * pair_dataset_len pd"
proof -
  from run22_adversarial obtain pd where
    run: "DomainAdaptationPairDataset_init no_dir no_dir 2 1 True (Some src22) (Some tgt22)
            None draws22 = Inr (pd, [])" and
    mp: "min_pairs pd = 2"
    by (auto split: sum.splits)
  from pair_dataset_length [OF run] have
    "pair_dataset_len pd = 2 * min_pairs pd \<and>
     sum_list (map length (group_imgs pd)) = 1 * pair_dataset_len pd"
    by simp
  with run mp show ?thesis by blast
qed

text \<open>
  C5 as stated fails: with \<open>pair_factor = 2\<close> in normal mode the four groups hold two pairs
  each, eight in all, and \<open>length()\<close> is four.
\<close>

theorem pair_dataset_length_counterexample:
  "\<exists>pd. DomainAdaptationPairDataset_init no_dir no_dir 2 2 False (Some src22) (Some tgt22)
            None draws22 = Inr (pd, []) \<and>
     map length (group_imgs pd) = [2, 2, 2, 2] \<and>
     sum_list (map length (group_imgs pd)) = 8 \<and>
     pair_dataset_len pd = 4"
proof -
  from run22_factor2 obtain pd where
    "DomainAdaptationPairDataset_init no_dir no_dir 2 2 False (Some src22) (Some tgt22)
            None draws22 = Inr (pd, [])" and
    "map length (group_imgs pd) = [2, 2, 2, 2]" and "pair_dataset_len pd = 4"
    by (auto split: sum.splits)
  then show ?thesis by auto
qed

text \<open>
  C6 (as amended). In adversarial mode the served groups are the two cross-domain groups,
  G2 and G4, and their pair labels are 0 and 2, the labels of G1 and G3. The same-domain
  groups G1 and G3 are still materialized by the constructor, with
  \<open>pair_factor * min_pairs\<close> pairs each and the labels 0 and 2; they are only left out of
  the served groups.
\<close>

theorem adversarial_groups:
  assumes "DomainAdaptationPairDataset_init sdir tdir sh pf True sds tds sub rs = Inr (pd, rs')"
  shows "adv_stage pd \<and>
         group_imgs pd = [G2_img_paths pd, G4_img_paths pd] \<and>
         group_labels pd = [G2_labels pd, G4_labels pd] \<and>
         (\<forall>l\<in>set (G2_labels pd). fst l = 0) \<and> (\<forall>l\<in>set (G4_labels pd). fst l = 2) \<and>
         (\<forall>l\<in>set (G1_labels pd). fst l = 0) \<and> (\<forall>l\<in>set (G3_labels pd). fst l = 2) \<and>
         length (G1_img_paths pd) = pf * min_pairs pd \<and>
         length (G3_img_paths pd) = pf * min_pairs pd"
proof -
  note c = DA_init_counts [OF assms]
  note g = DA_init_served [OF assms]
  from g(1) have "adv_stage pd" by simp
  moreover from g(2) have "group_imgs pd = [G2_img_paths pd, G4_img_paths pd]" by simp
  moreover from g(3) have "group_labels pd = [G2_labels pd, G4_labels pd]" by simp
  moreover from g(6) have "\<forall>l\<in>set (G2_labels pd). fst l = 0" by simp
  moreover from g(8) have "\<forall>l\<in>set (G4_labels pd). fst l = 2" by simp
  ultimately show ?thesis using g(5) g(7) c(5) c(9) by blast
qed

theorem adversarial_groups_witness:
  "\<exists>pd. DomainAdaptationPairDataset_init no_dir no_dir 2 1 True (Some src22) (Some tgt22)
            None draws22 = Inr (pd, []) \<and>
     group_imgs pd = [G2_img_paths pd, G4_img_paths pd] \<and>
     group_labels pd = [[(0, 0, 0), (0, 1, 1)], [(2, 0, 1), (2, 1, 0)]] \<and>
     length (G1_img_paths pd) = 1 * min_pairs pd"
proof -
  from run22_adversarial obtain pd where
    run: "DomainAdaptationPairDataset_init no_dir no_dir 2 1 True (Some src22) (Some tgt22)
            None draws22 = Inr (pd, [])" and
    gl: "group_labels pd = [[(0, 0, 0), (0, 1, 1)], [(2, 0, 1), (2, 1, 0)]]"
    by (auto split: sum.splits)
  from adversarial_groups [OF run] have
    "group_imgs pd = [G2_img_paths pd, G4_img_paths pd] \<and>
     length (G1_img_paths pd) = 1 * min_pairs pd"
    by simp
  with run gl show ?thesis by blast
qed

text \<open>
  C6 as stated fails in its last part: in an adversarial construction the lists of G1 and
  G3 are filled, each with two pairs here.
\<close>

theorem adversarial_groups_counterexample:
  "\<exists>pd. DomainAdaptationPairDataset_init no_dir no_dir 2 1 True (Some src22) (Some tgt22)
            None draws22 = Inr (pd, []) \<and>
     G1_img_paths pd = [(''s/a/0'', ''s/a/0''), (''s/b/1'', ''s/b/1'')] \<and>
     G3_img_paths pd = [(''s/a/0'', ''s/b/0''), (''s/b/1'', ''s/a/1'')]"
proof -
  from run22_adversarial obtain pd where
    "DomainAdaptationPairDataset_init no_dir no_dir 2 1 True (Some src22) (Some tgt22)
            None draws22 = Inr (pd, [])" and
    "G1_img_paths pd = [(''s/a/0'', ''s/a/0''), (''s/b/1'', ''s/b/1'')]" and
    "G3_img_paths pd = [(''s/a/0'', ''s/b/0''), (''s/b/1'', ''s/a/1'')]"
    by (auto split: sum.splits)
  then show ?thesis by blast
qed

text \<open>
  C3. For samplers built as the constructor builds them (the source sampler without shot,
  the target sampler with \<open>shot\<close>), the four capacities the constructor computes are the
  formulas of the specification: SS-same-class is the sum over the classes of
  \<open>source_count choose 2\<close>, ST-same-class the sum of \<open>source_count * target_count\<close>,
  SS-diff-class \<open>total_source_samples choose 2\<close> (same-class combinations included), and
  ST-diff-class the sum of \<open>source_count c * target_count c'\<close> over \<open>c \<noteq> c'\<close>. The target
  count is the count after the \<open>shot\<close> truncation; with more target classes than source
  classes the computation raises \<^verbatim>\<open>IndexError\<close>. Every dataset constructed from a source
  and a target dataset has these capacities. For 2 source classes of 20 and 2 target
  classes of 3 with \<open>shot = 3\<close> they are 380, 120, 780 (and 120).
\<close>

theorem group_capacities:
  assumes ss: "EvenSampler_init sd (- 1) = Inr ss" and ts: "EvenSampler_init td sh = Inr ts"
  shows "capacities ss ts =
           (if n_classes td \<le> n_classes sd
            then Inr (SS_same_class sd, ST_same_class sd td sh, SS_diff_class sd,
                      ST_diff_class sd td sh)
            else Inl IndexError) \<and>
         (\<forall>sdir tdir pf adv sub rs pd rs'.
            DomainAdaptationPairDataset_init sdir tdir sh pf adv (Some sd) (Some td) sub rs
              = Inr (pd, rs') \<longrightarrow>
            capacities (s_sampler pd) (t_sampler pd) =
              Inr (SS_same_class sd, ST_same_class sd td sh, SS_diff_class sd,
                   ST_diff_class sd td sh))"
proof (intro conjI allI impI)
  show f: "capacities ss ts =
           (if n_classes td \<le> n_classes sd
            then Inr (SS_same_class sd, ST_same_class sd td sh, SS_diff_class sd,
                      ST_diff_class sd td sh)
            else Inl IndexError)"
    using ss ts by (rule capacities_formulas)
  fix sdir tdir pf adv sub rs pd rs'
  assume init: "DomainAdaptationPairDataset_init sdir tdir sh pf adv (Some sd) (Some td) sub rs
              = Inr (pd, rs')"
  from DA_init_sources(1) [OF init] have d: "source_dataset pd = sd" "target_dataset pd = td"
    by simp_all
  from DA_init_sources(2) [OF init] obtain ss' ts' g where
    "EvenSampler_init sd (- 1) = Inr ss'" "EvenSampler_init td sh = Inr ts'"
    "capacities (s_sampler pd) (t_sampler pd) = capacities ss' ts'"
    "capacities ss' ts' = Inr g"
    unfolding d by blast
  with ss ts have c: "capacities (s_sampler pd) (t_sampler pd) = capacities ss ts"
    and g: "capacities ss ts = Inr g"
    by simp_all
  from g f have "n_classes td \<le> n_classes sd"
    by (auto split: if_splits)
  with f c show "capacities (s_sampler pd) (t_sampler pd) =
              Inr (SS_same_class sd, ST_same_class sd td sh, SS_diff_class sd,
                   ST_diff_class sd td sh)"
    by simp
qed

theorem group_capacities_witness:
  "\<exists>ss ts. EvenSampler_init src_2x20 (- 1) = Inr ss \<and> EvenSampler_init tgt_2x3 3 = Inr ts \<and>
     capacities ss ts = Inr (380, 120, 780, 120) \<and>
     SS_same_class src_2x20 = 380 \<and> ST_same_class src_2x20 tgt_2x3 3 = 120 \<and>
     SS_diff_class src_2x20 = 780 \<and> ST_diff_class src_2x20 tgt_2x3 3 = 120"
proof -
  define ss where "ss = \<lparr> sam_labels = replicate 20 0 @ replicate 20 (1::nat), shot = - 1,
     num_classes = 2, class_idxs = [[0..<20], [20..<40]], remain_class_idxs = [],
     class_idx_lens = [20, 20], max_len = 20, min_len = 20 \<rparr>"
  define ts where "ts = \<lparr> sam_labels = replicate 3 0 @ replicate 3 (1::nat), shot = 3,
     num_classes = 2, class_idxs = [[0, 1, 2], [3, 4, 5]], remain_class_idxs = [[], []],
     class_idx_lens = [3, 3], max_len = 3, min_len = 3 \<rparr>"
  have i: "EvenSampler_init src_2x20 (- 1) = Inr ss"
    unfolding ss_def by code_simp
  have j: "EvenSampler_init tgt_2x3 3 = Inr ts"
    unfolding ts_def by code_simp
  have n: "n_classes tgt_2x3 \<le> n_classes src_2x20" by code_simp
  have v: "SS_same_class src_2x20 = 380" "ST_same_class src_2x20 tgt_2x3 3 = 120"
    "SS_diff_class src_2x20 = 780" "ST_diff_class src_2x20 tgt_2x3 3 = 120"
    by code_simp+
  from group_capacities [OF i j] n v
  have "capacities ss ts = Inr (380, 120, 780, 120)"
    by simp
  with i j v show ?thesis by blast
qed

end
